theory Spec2Isabelle
  imports Complex_Main
begin

section \<open>Python exceptions\<close>

text \<open>
  The exceptions the importer can meet, each with the text that \<^verbatim>\<open>str(e)\<close> gives.
\<close>

datatype exn = ValueError string | IndexError string | TypeError string

fun str_of_exn :: "exn \<Rightarrow> string" where
  "str_of_exn (ValueError m) = m"
| "str_of_exn (IndexError m) = m"
| "str_of_exn (TypeError m) = m"

section \<open>float64 values\<close>

text \<open>
  A float64 is a finite number, an infinity or NaN. The result of an operation on finite
  operands is rounded to the nearest float. Of that rounding the model keeps what happens
  at the end of the range: an exact result of magnitude at most \<open>float_max\<close> is kept as it
  is, one beyond \<open>float_max\<close> and below \<open>float_max + 2 ^ 970\<close> (half the distance to
  \<open>2 ^ 1024\<close>) becomes \<open>float_max\<close>, and one of at least that magnitude overflows to the
  infinity of its sign. The rounding of results within the range is not modelled, and
  signed zeros are not distinguished. Division by zero gives an infinity or NaN, as numpy
  does (with a warning, not an exception).
\<close>

datatype fval = Fin real | PInf | NInf | NaN

definition float_max :: real where
  "float_max = (2 - 1 / 2 ^ 52) * 2 ^ 1023"

definition overflow_threshold :: real where
  "overflow_threshold = float_max + 2 ^ 970"

definition fresult :: "real \<Rightarrow> fval" where
  "fresult r =
     (if overflow_threshold \<le> r then PInf
      else if r \<le> - overflow_threshold then NInf
      else if float_max < r then Fin float_max
      else if r < - float_max then Fin (- float_max)
      else Fin r)"

fun fneg :: "fval \<Rightarrow> fval" where
  "fneg (Fin a) = Fin (- a)"
| "fneg PInf = NInf"
| "fneg NInf = PInf"
| "fneg NaN = NaN"

fun fsub :: "fval \<Rightarrow> fval \<Rightarrow> fval" where
  "fsub NaN _ = NaN"
| "fsub _ NaN = NaN"
| "fsub (Fin a) (Fin b) = fresult (a - b)"
| "fsub (Fin a) b = fneg b"
| "fsub PInf PInf = NaN"
| "fsub NInf NInf = NaN"
| "fsub a _ = a"

fun fsign :: "fval \<Rightarrow> real" where
  "fsign (Fin a) = sgn a"
| "fsign PInf = 1"
| "fsign NInf = - 1"
| "fsign NaN = 0"

definition inf_of_sign :: "real \<Rightarrow> fval" where
  "inf_of_sign s = (if s = 0 then NaN else if 0 < s then PInf else NInf)"

fun fmul :: "fval \<Rightarrow> fval \<Rightarrow> fval" where
  "fmul NaN _ = NaN"
| "fmul _ NaN = NaN"
| "fmul (Fin a) (Fin b) = fresult (a * b)"
| "fmul a b = inf_of_sign (fsign a * fsign b)"

fun fdiv :: "fval \<Rightarrow> fval \<Rightarrow> fval" where
  "fdiv NaN _ = NaN"
| "fdiv _ NaN = NaN"
| "fdiv (Fin a) (Fin b) = (if b = 0 then inf_of_sign (sgn a) else fresult (a / b))"
| "fdiv (Fin a) _ = Fin 0"
| "fdiv a (Fin b) = (if b < 0 then fneg a else a)"
| "fdiv _ _ = NaN"

text \<open>Comparison; every comparison with NaN is false.\<close>

fun fle :: "fval \<Rightarrow> fval \<Rightarrow> bool" where
  "fle NaN _ = False"
| "fle _ NaN = False"
| "fle (Fin a) (Fin b) = (a \<le> b)"
| "fle NInf _ = True"
| "fle _ PInf = True"
| "fle _ _ = False"

definition flt :: "fval \<Rightarrow> fval \<Rightarrow> bool" where
  "flt a b = (fle a b \<and> a \<noteq> b)"

text \<open>\<^verbatim>\<open>np.minimum\<close> and \<^verbatim>\<open>np.maximum\<close>: NaN propagates.\<close>

definition fminimum :: "fval \<Rightarrow> fval \<Rightarrow> fval" where
  "fminimum a b = (if a = NaN \<or> b = NaN then NaN else if fle a b then a else b)"

definition fmaximum :: "fval \<Rightarrow> fval \<Rightarrow> fval" where
  "fmaximum a b = (if a = NaN \<or> b = NaN then NaN else if fle a b then b else a)"

section \<open>int64 values\<close>

text \<open>
  An element of an integer array is held as the finite value it is. Subtraction of
  int64 values wraps around.
\<close>

definition wrap64 :: "int \<Rightarrow> int" where
  "wrap64 n = (n + 2 ^ 63) mod 2 ^ 64 - 2 ^ 63"

fun to_int :: "fval \<Rightarrow> int" where
  "to_int (Fin a) = \<lfloor>a\<rfloor>"
| "to_int _ = 0"

definition isub :: "fval \<Rightarrow> fval \<Rightarrow> fval" where
  "isub a b = Fin (of_int (wrap64 (to_int a - to_int b)))"

section \<open>numpy arrays\<close>

text \<open>
  An array has an element type, a shape (one extent per axis) and its elements in
  row-major order. Two element types are modelled, the ones numpy gives to Python floats
  and to Python integers.
\<close>

datatype np_dtype = Float64 | Int64

record ndarray =
  dtype :: np_dtype
  shape :: "nat list"
  data :: "fval list"

text \<open>Subtraction of two elements, or of two scalars taken from an array, of a given type.\<close>

definition np_sub :: "np_dtype \<Rightarrow> fval \<Rightarrow> fval \<Rightarrow> fval" where
  "np_sub t a b = (case t of Float64 \<Rightarrow> fsub a b | Int64 \<Rightarrow> isub a b)"

definition ndim :: "ndarray \<Rightarrow> nat" where
  "ndim a = length (shape a)"

definition wf_array :: "ndarray \<Rightarrow> bool" where
  "wf_array a = (length (data a) = prod_list (shape a))"

definition map_array :: "(fval \<Rightarrow> fval) \<Rightarrow> ndarray \<Rightarrow> ndarray" where
  "map_array f a = a\<lparr>data := map f (data a)\<rparr>"

text \<open>\<^verbatim>\<open>np.min\<close> and \<^verbatim>\<open>np.max\<close> over all elements: a ValueError on an empty array.\<close>

definition np_min :: "ndarray \<Rightarrow> exn + fval" where
  "np_min a = (case data a of
       [] \<Rightarrow> Inl (ValueError ''zero-size array to reduction operation minimum which has no identity'')
     | x # xs \<Rightarrow> Inr (fold fminimum xs x))"

definition np_max :: "ndarray \<Rightarrow> exn + fval" where
  "np_max a = (case data a of
       [] \<Rightarrow> Inl (ValueError ''zero-size array to reduction operation maximum which has no identity'')
     | x # xs \<Rightarrow> Inr (fold fmaximum xs x))"

text \<open>\<^verbatim>\<open>np.nan_to_num\<close> on one element: NaN becomes 0, an infinity the largest finite
  float of its sign.\<close>

fun nan_to_num1 :: "fval \<Rightarrow> fval" where
  "nan_to_num1 NaN = Fin 0"
| "nan_to_num1 PInf = Fin float_max"
| "nan_to_num1 NInf = Fin (- float_max)"
| "nan_to_num1 (Fin r) = Fin r"

text \<open>
  Element \<^verbatim>\<open>a[i, j]\<close> of a 2D array, with indices that are not negative: an IndexError
  out of range.
\<close>

definition aget :: "ndarray \<Rightarrow> nat \<Rightarrow> nat \<Rightarrow> exn + fval" where
  "aget a i j = (case shape a of
       [h, w] \<Rightarrow> if i < h \<and> j < w then Inr (data a ! (i * w + j))
                 else Inl (IndexError ''index out of bounds'')
     | _ \<Rightarrow> Inl (IndexError ''too many indices for array''))"

text \<open>
  \<^verbatim>\<open>np.pad(a, pad_width=1, mode='constant', constant_values=c)\<close> of a 2D array: one more
  row above and below, one more column left and right, all of them \<open>c\<close>; the element
  type is kept.
\<close>

definition np_pad :: "np_dtype \<Rightarrow> nat \<Rightarrow> nat \<Rightarrow> fval list \<Rightarrow> fval \<Rightarrow> ndarray" where
  "np_pad t h w xs c =
     \<lparr>dtype = t, shape = [h + 2, w + 2],
      data = replicate (w + 2) c
             @ concat (map (\<lambda>i. c # take w (drop (i * w) xs) @ [c]) [0..<h])
             @ replicate (w + 2) c\<rparr>"

section \<open>The object store\<close>

text \<open>
  Arrays are objects: a variable holds a reference, and an in-place operation changes the
  array every holder of the reference sees. The store is the list of the arrays
  allocated so far, a reference is an index into it.
\<close>

type_synonym heap = "ndarray list"
type_synonym ref = nat

definition alloc :: "heap \<Rightarrow> ndarray \<Rightarrow> heap \<times> ref" where
  "alloc h a = (h @ [a], length h)"

text \<open>
  \<^verbatim>\<open>np.nan_to_num(a)\<close> (\<^verbatim>\<open>copy=True\<close> is the default): a new array, sanitized when its
  elements are floats, a plain copy when they are integers.
\<close>

definition sanitized :: "ndarray \<Rightarrow> ndarray" where
  "sanitized a = (case dtype a of Float64 \<Rightarrow> map_array nan_to_num1 a | Int64 \<Rightarrow> a)"

definition nan_to_num :: "heap \<Rightarrow> ref \<Rightarrow> heap \<times> ref" where
  "nan_to_num h r = alloc h (sanitized (h ! r))"

text \<open>
  \<^verbatim>\<open>a - s\<close> and \<^verbatim>\<open>a / s\<close> with a scalar \<open>s\<close> taken from \<open>a\<close>: a new array each. The
  difference keeps the element type; the quotient is always an array of floats, the
  integers being converted first.
\<close>

definition arr_sub :: "heap \<Rightarrow> ref \<Rightarrow> fval \<Rightarrow> heap \<times> ref" where
  "arr_sub h r s = alloc h (map_array (\<lambda>v. np_sub (dtype (h ! r)) v s) (h ! r))"

definition arr_div :: "heap \<Rightarrow> ref \<Rightarrow> fval \<Rightarrow> heap \<times> ref" where
  "arr_div h r s = alloc h ((map_array (\<lambda>v. fdiv v s) (h ! r))\<lparr>dtype := Float64\<rparr>)"

text \<open>
  \<^verbatim>\<open>a *= s\<close> with a Python float \<open>s\<close>: in place, on the array the reference points to.
  The product is a float, and numpy refuses to store it into an array of integers.
\<close>

definition cast_error :: exn where
  "cast_error = TypeError (''Cannot cast ufunc 'multiply' output from dtype('float64') to dtype('int64') with casting rule 'same_kind'' @ [CHR 0x27])"

definition arr_imul :: "heap \<Rightarrow> ref \<Rightarrow> real \<Rightarrow> exn + heap" where
  "arr_imul h r s = (case dtype (h ! r) of
       Float64 \<Rightarrow> Inr (h[r := map_array (\<lambda>v. fmul v (Fin s)) (h ! r)])
     | Int64 \<Rightarrow> Inl cast_error)"

section \<open>The operator and its settings\<close>

text \<open>
  The two properties of \<^verbatim>\<open>ImportNPYDepthMap\<close>. Blender keeps \<^verbatim>\<open>depth_scale\<close> within the
  bounds of its declaration (\<^verbatim>\<open>min=0.001\<close>, \<^verbatim>\<open>max=1000.0\<close>).
\<close>

record operator =
  use_cube :: bool
  depth_scale :: real

definition valid_operator :: "operator \<Rightarrow> bool" where
  "valid_operator self = (1 / 1000 \<le> depth_scale self \<and> depth_scale self \<le> 1000)"

section \<open>process_depth_array\<close>

text \<open>
  The function takes a reference and returns one; the store is threaded through, and it
  is returned also when an exception is raised.
\<close>

definition process_depth_array :: "operator \<Rightarrow> heap \<Rightarrow> ref \<Rightarrow> heap \<times> (exn + ref)" where
  "process_depth_array self h r =
     (let (h1, depth_array) = nan_to_num h r in
      (case np_min (h1 ! depth_array) of
         Inl e \<Rightarrow> (h1, Inl e)
       | Inr depth_min \<Rightarrow>
          (case np_max (h1 ! depth_array) of
             Inl e \<Rightarrow> (h1, Inl e)
           | Inr depth_max \<Rightarrow>
              (let t = dtype (h1 ! depth_array);
                   (h2, depth_array) =
                     (if flt (Fin 0) (np_sub t depth_max depth_min)
                      then (let (h', d) = arr_sub h1 depth_array depth_min
                            in arr_div h' d (np_sub t depth_max depth_min))
                      else (h1, depth_array))
               in (case arr_imul h2 depth_array (depth_scale self) of
                     Inl e \<Rightarrow> (h2, Inl e)
                   | Inr h3 \<Rightarrow> (h3, Inr depth_array))))))"

section \<open>The mesh under construction\<close>

text \<open>
  A vertex has two coordinates computed from its grid position and the depth as third.
  A bmesh is the list of its vertices, in the order of their creation, and the list of its
  faces; a face is the list of the indices of its vertices, in their order.
\<close>

type_synonym vertex = "real \<times> real \<times> fval"

record bmesh =
  bm_verts :: "vertex list"
  bm_faces :: "nat list list"

definition bmesh_new :: bmesh where
  "bmesh_new = \<lparr>bm_verts = [], bm_faces = []\<rparr>"

definition verts_new :: "bmesh \<Rightarrow> vertex \<Rightarrow> bmesh" where
  "verts_new bm v = bm\<lparr>bm_verts := bm_verts bm @ [v]\<rparr>"

text \<open>\<^verbatim>\<open>bm.verts[i]\<close> for each index of a list: an IndexError when one is out of range.\<close>

definition verts_get :: "bmesh \<Rightarrow> nat list \<Rightarrow> exn + nat list" where
  "verts_get bm idxs =
     (if list_all (\<lambda>i. i < length (bm_verts bm)) idxs then Inr idxs
      else Inl (IndexError ''BMElemSeq[index]: index out of range''))"

text \<open>
  Whether \<^verbatim>\<open>faces.new\<close> accepts a face is decided by Blender, from the mesh as it is and
  the vertices given. The decision is a parameter of the model: \<open>None\<close> when the face is
  accepted, the message of the exception when it is refused.
\<close>

type_synonym face_check = "bmesh \<Rightarrow> nat list \<Rightarrow> string option"

definition faces_new :: "face_check \<Rightarrow> bmesh \<Rightarrow> nat list \<Rightarrow> exn + bmesh" where
  "faces_new fc bm vs = (case fc bm vs of
       Some m \<Rightarrow> Inl (ValueError m)
     | None \<Rightarrow> Inr (bm\<lparr>bm_faces := bm_faces bm @ [vs]\<rparr>))"

text \<open>
  Two decisions to run the builders with: every face is accepted, or one given face is
  refused and every other one accepted.
\<close>

definition accept_all :: face_check where
  "accept_all bm vs = None"

definition refuse_face :: "nat list \<Rightarrow> face_check" where
  "refuse_face q bm vs = (if vs = q then Some ''refused'' else None)"

section \<open>create_depthmap_bmesh\<close>

text \<open>The pair \<open>(mesh_width, mesh_height)\<close>.\<close>

definition mesh_size :: "nat \<Rightarrow> nat \<Rightarrow> real \<times> real" where
  "mesh_size height width =
     (if width > height then (1, real height / real width)
      else if height > width then (real width / real height, 1)
      else (1, 1))"

definition x_norm :: "nat \<Rightarrow> nat \<Rightarrow> nat \<Rightarrow> real" where
  "x_norm height width x =
     (if width > 1 then real x / real (width - 1) * fst (mesh_size height width) else 0)"

definition y_norm :: "nat \<Rightarrow> nat \<Rightarrow> nat \<Rightarrow> real" where
  "y_norm height width y =
     (if height > 1 then real y / real (height - 1) * snd (mesh_size height width) else 0)"

text \<open>The body of the vertex loop, at row \<open>y\<close> and column \<open>x\<close>.\<close>

definition grid_vertex :: "ndarray \<Rightarrow> nat \<Rightarrow> nat \<Rightarrow> nat \<Rightarrow> nat \<Rightarrow> exn + vertex" where
  "grid_vertex depth_array height width y x =
     (case aget depth_array (height - 1 - y) x of
        Inl e \<Rightarrow> Inl e
      | Inr z \<Rightarrow> Inr (x_norm height width x - 1 / 2, y_norm height width y - 1 / 2, z))"

text \<open>
  The two nested loops run over the pairs \<open>(y, x)\<close> with \<open>y\<close> outermost, which is the order
  of \<open>List.product\<close>. An exception in the vertex loop ends it.
\<close>

fun add_verts :: "ndarray \<Rightarrow> nat \<Rightarrow> nat \<Rightarrow> (nat \<times> nat) list \<Rightarrow> bmesh \<Rightarrow> exn + bmesh" where
  "add_verts a height width [] bm = Inr bm"
| "add_verts a height width ((y, x) # ps) bm =
     (case grid_vertex a height width y x of
        Inl e \<Rightarrow> Inl e
      | Inr v \<Rightarrow> add_verts a height width ps (verts_new bm v))"

definition quad :: "nat \<Rightarrow> nat \<Rightarrow> nat \<Rightarrow> nat list" where
  "quad width y x =
     [y * width + x, y * width + (x + 1), (y + 1) * width + (x + 1), (y + 1) * width + x]"

text \<open>The body of the face loop: whatever is raised inside \<^verbatim>\<open>try\<close> is dropped.\<close>

definition try_quad :: "face_check \<Rightarrow> bmesh \<Rightarrow> nat list \<Rightarrow> bmesh" where
  "try_quad fc bm q =
     (case verts_get bm q of
        Inl e \<Rightarrow> bm
      | Inr vs \<Rightarrow> (case faces_new fc bm vs of Inl e \<Rightarrow> bm | Inr bm' \<Rightarrow> bm'))"

fun add_quads :: "face_check \<Rightarrow> nat \<Rightarrow> (nat \<times> nat) list \<Rightarrow> bmesh \<Rightarrow> bmesh" where
  "add_quads fc width [] bm = bm"
| "add_quads fc width ((y, x) # ps) bm = add_quads fc width ps (try_quad fc bm (quad width y x))"

text \<open>Unpacking a shape into two names raises a ValueError unless it has two entries.\<close>

definition unpack_error :: "nat \<Rightarrow> exn" where
  "unpack_error n =
     (if n < 2 then ValueError ''not enough values to unpack''
      else ValueError ''too many values to unpack'')"

definition create_depthmap_bmesh :: "face_check \<Rightarrow> ndarray \<Rightarrow> exn + bmesh" where
  "create_depthmap_bmesh fc depth_array =
     (case shape depth_array of
        [height, width] \<Rightarrow>
          (case add_verts depth_array height width
                  (List.product [0..<height] [0..<width]) bmesh_new of
             Inl e \<Rightarrow> Inl e
           | Inr mesh \<Rightarrow>
               Inr (add_quads fc width (List.product [0..<height - 1] [0..<width - 1]) mesh))
      | s \<Rightarrow> Inl (unpack_error (length s)))"

section \<open>The scene\<close>

text \<open>
  What the operator changes outside itself: the arrays, the messages reported to the
  user, the objects created (a mesh datablock and the object that wraps it are one
  record), which of them are linked to the collection, which are selected and which one
  is active.
\<close>

datatype level = ERROR | INFO

datatype status = CANCELLED | FINISHED

record mesh_obj =
  obj_name :: string
  obj_verts :: "vertex list"
  obj_faces :: "nat list list"

record world =
  store :: heap
  reports :: "(level \<times> string) list"
  objects :: "mesh_obj list"
  linked :: "nat list"
  selected :: "nat list"
  active :: "nat option"

definition report :: "world \<Rightarrow> level \<Rightarrow> string \<Rightarrow> world" where
  "report w l m = w\<lparr>reports := reports w @ [(l, m)]\<rparr>"

definition new_object :: "world \<Rightarrow> string \<Rightarrow> world \<times> nat" where
  "new_object w name =
     (w\<lparr>objects := objects w @ [\<lparr>obj_name = name, obj_verts = [], obj_faces = []\<rparr>]\<rparr>,
      length (objects w))"

definition link :: "world \<Rightarrow> nat \<Rightarrow> world" where
  "link w obj = w\<lparr>linked := linked w @ [obj]\<rparr>"

definition to_mesh :: "world \<Rightarrow> nat \<Rightarrow> bmesh \<Rightarrow> world" where
  "to_mesh w obj bm =
     w\<lparr>objects := (objects w)[obj := (objects w ! obj)\<lparr>obj_verts := bm_verts bm,
                                                      obj_faces := bm_faces bm\<rparr>]\<rparr>"

text \<open>A world with nothing in it, to run the builders in.\<close>

definition empty_world :: world where
  "empty_world =
     \<lparr>store = [], reports = [], objects = [], linked = [], selected = [], active = None\<rparr>"

section \<open>create_plane_mesh and create_cube_mesh\<close>

text \<open>
  Both builders only read the array, so they take its value. The world is returned also
  when an exception is raised: the object is linked before the mesh is built.
\<close>

definition create_plane_mesh :: "face_check \<Rightarrow> world \<Rightarrow> ndarray \<Rightarrow> world \<times> (exn + nat)" where
  "create_plane_mesh fc w depth_array =
     (let (w1, obj) = new_object w ''DepthMap_Plane'';
          w2 = link w1 obj
      in (case create_depthmap_bmesh fc depth_array of
            Inl e \<Rightarrow> (w2, Inl e)
          | Inr bm \<Rightarrow> (to_mesh w2 obj bm, Inr obj)))"

text \<open>The indices collected by the four loops that build \<^verbatim>\<open>base_verts\<close>.\<close>

definition base_verts :: "nat \<Rightarrow> nat \<Rightarrow> nat list" where
  "base_verts height width =
     map (\<lambda>y. y * width) [0..<height - 1]
     @ map (\<lambda>x. (height - 1) * width + x) [1..<width - 1]
     @ map (\<lambda>y. y * width + (width - 1)) (rev [0..<height - 2])
     @ map (\<lambda>x. x) (rev [1..<width - 2])"

text \<open>
  \<^verbatim>\<open>execute\<close> calls the builder with a 2D array only. For another rank \<^verbatim>\<open>np.pad\<close> keeps
  the rank, and the unpacking of the shape in \<^verbatim>\<open>create_depthmap_bmesh\<close> raises after the
  object has been linked.
\<close>

definition create_cube_mesh :: "face_check \<Rightarrow> world \<Rightarrow> ndarray \<Rightarrow> world \<times> (exn + nat)" where
  "create_cube_mesh fc w depth_array =
     (case np_max depth_array of
        Inl e \<Rightarrow> (w, Inl e)
      | Inr base_z \<Rightarrow>
         (let (w1, obj) = new_object w ''DepthMap_Cube'';
              w2 = link w1 obj
          in (case shape depth_array of
                [h, wd] \<Rightarrow>
                  (let padded = np_pad (dtype depth_array) h wd (data depth_array) base_z
                   in (case create_depthmap_bmesh fc padded of
                         Inl e \<Rightarrow> (w2, Inl e)
                       | Inr bm \<Rightarrow>
                          (case shape padded of
                             [height, width] \<Rightarrow>
                               (case verts_get bm (base_verts height width) of
                                  Inl e \<Rightarrow> (w2, Inl e)
                                | Inr vs \<Rightarrow>
                                   (case faces_new fc bm vs of
                                      Inl e \<Rightarrow>
                                        (to_mesh
                                           (report w2 ERROR
                                              (''Failed to create base face: '' @ str_of_exn e))
                                           obj bm,
                                         Inr obj)
                                    | Inr bm' \<Rightarrow> (to_mesh w2 obj bm', Inr obj)))
                           | s \<Rightarrow> (w2, Inl (unpack_error (length s))))))
              | s \<Rightarrow> (w2, Inl (unpack_error (length s))))))"

section \<open>execute\<close>

text \<open>
  What \<^verbatim>\<open>np.load\<close> returned: one array, or an archive of named arrays. Reading the file
  is the host's part.
\<close>

datatype npdata = NpyArray ref | NpzFile "(string \<times> ref) list"

definition select_array :: "npdata \<Rightarrow> exn + ref" where
  "select_array d = (case d of
       NpyArray r \<Rightarrow> Inr r
     | NpzFile [] \<Rightarrow> Inl (IndexError ''list index out of range'')
     | NpzFile ((k, r) # _) \<Rightarrow> Inr r)"

text \<open>The handler of \<^verbatim>\<open>except Exception as e\<close>.\<close>

definition failed :: "world \<Rightarrow> exn \<Rightarrow> world \<times> status" where
  "failed w e = (report w ERROR (''Failed to import: '' @ str_of_exn e), CANCELLED)"

definition execute :: "operator \<Rightarrow> face_check \<Rightarrow> world \<Rightarrow> npdata \<Rightarrow> world \<times> status" where
  "execute self fc w d =
     (case select_array d of
        Inl e \<Rightarrow> failed w e
      | Inr r \<Rightarrow>
         (if ndim (store w ! r) \<noteq> 2 then (report w ERROR ''Depth map must be 2D'', CANCELLED)
          else
            (let (h', res) = process_depth_array self (store w) r;
                 w1 = w\<lparr>store := h'\<rparr>
             in (case res of
                   Inl e \<Rightarrow> failed w1 e
                 | Inr depth_array \<Rightarrow>
                    (let (w2, res2) =
                           (if use_cube self
                            then create_cube_mesh fc w1 (store w1 ! depth_array)
                            else create_plane_mesh fc w1 (store w1 ! depth_array))
                     in (case res2 of
                           Inl e \<Rightarrow> failed w2 e
                         | Inr mesh_obj \<Rightarrow>
                            (report (w2\<lparr>selected := [mesh_obj], active := Some mesh_obj\<rparr>) INFO
                               (''Successfully imported '' @ obj_name (objects w2 ! mesh_obj)),
                             FINISHED)))))))"

section \<open>The border of a grid\<close>

text \<open>
  Following the specification's words, not the code: the vertices on the outer border of
  a grid of \<open>height\<close> rows and \<open>width\<close> columns are those of the first and the last row
  and of the first and the last column, where the vertex of row \<open>y\<close> and column \<open>x\<close> has
  the index \<open>y * width + x\<close>.
\<close>

definition border_verts :: "nat \<Rightarrow> nat \<Rightarrow> nat list" where
  "border_verts height width =
     [y * width + x. y \<leftarrow> [0..<height], x \<leftarrow> [0..<width],
        y = 0 \<or> y = height - 1 \<or> x = 0 \<or> x = width - 1]"

section \<open>Facts about floats and arrays\<close>

lemma float_max_ge: "1000 \<le> float_max"
proof -
  have "(2::real) ^ 10 \<le> 2 ^ 1023" by (rule power_increasing) simp_all
  moreover have "(1::real) \<le> 2 - 1 / 2 ^ 52" by simp
  ultimately have "(2::real) ^ 10 * 1 \<le> 2 ^ 1023 * (2 - 1 / 2 ^ 52)"
    by (intro mult_mono) simp_all
  then show ?thesis by (simp add: float_max_def mult.commute)
qed

lemma float_max_pos: "0 < float_max"
  using float_max_ge by simp

lemma float_max_ge_half_gap: "2 ^ 970 \<le> float_max"
proof -
  have "(2::real) ^ 970 \<le> 2 ^ 1023" by (rule power_increasing) simp_all
  moreover have "(1::real) \<le> 2 - 1 / 2 ^ 52" by simp
  ultimately have "(2::real) ^ 970 * 1 \<le> 2 ^ 1023 * (2 - 1 / 2 ^ 52)"
    by (intro mult_mono) simp_all
  then show ?thesis by (simp add: float_max_def mult.commute)
qed

lemma float_max_less_threshold: "float_max < overflow_threshold"
  by (simp add: overflow_threshold_def)

lemma fresult_fin: "\<bar>r\<bar> \<le> float_max \<Longrightarrow> fresult r = Fin r"
  using float_max_less_threshold by (auto simp: fresult_def)

lemma fresult_0 [simp]: "fresult 0 = Fin 0"
  by (rule fresult_fin) (use float_max_pos in simp)

lemma fresult_double: "fresult (2 * float_max) = PInf"
  using float_max_ge_half_gap by (simp add: fresult_def overflow_threshold_def)

lemma not_flt_self: "\<not> flt a a"
  by (simp add: flt_def)

lemma nan_to_num1_Fin: "\<exists>x. nan_to_num1 v = Fin x"
  by (cases v) auto

lemma map_array_simps [simp]:
  "shape (map_array f a) = shape a" "data (map_array f a) = map f (data a)"
  "dtype (map_array f a) = dtype a"
  by (simp_all add: map_array_def)

lemma map_array_comp: "map_array f (map_array g a) = map_array (f \<circ> g) a"
  by (simp add: map_array_def)

lemma fold_fminimum_Fin: "fold fminimum (map Fin rs) (Fin x) = Fin (fold min rs x)"
  by (induction rs arbitrary: x) (simp_all add: fminimum_def min_def)

lemma fold_fmaximum_Fin: "fold fmaximum (map Fin rs) (Fin x) = Fin (fold max rs x)"
  by (induction rs arbitrary: x) (simp_all add: fmaximum_def max_def)

lemma np_min_Fin:
  assumes "data a = map Fin rs" and "rs \<noteq> []"
  shows "np_min a = Inr (Fin (Min (set rs)))"
proof -
  obtain x xs where rs: "rs = x # xs" using assms(2) by (cases rs) auto
  show ?thesis
    unfolding rs Min.set_eq_fold using assms(1)
    by (simp add: np_min_def rs fold_fminimum_Fin)
qed

lemma np_max_Fin:
  assumes "data a = map Fin rs" and "rs \<noteq> []"
  shows "np_max a = Inr (Fin (Max (set rs)))"
proof -
  obtain x xs where rs: "rs = x # xs" using assms(2) by (cases rs) auto
  show ?thesis
    unfolding rs Max.set_eq_fold using assms(1)
    by (simp add: np_max_def rs fold_fmaximum_Fin)
qed

lemma np_min_replicate:
  "0 < n \<Longrightarrow> c \<noteq> NaN \<Longrightarrow> np_min \<lparr>dtype = t, shape = s, data = replicate n c\<rparr> = Inr c"
proof -
  have "c \<noteq> NaN \<Longrightarrow> fold fminimum (replicate k c) c = c" for k
    by (induction k) (auto simp: fminimum_def)
  then show "0 < n \<Longrightarrow> c \<noteq> NaN \<Longrightarrow> ?thesis"
    by (cases n) (simp_all add: np_min_def)
qed

lemma np_max_replicate:
  "0 < n \<Longrightarrow> c \<noteq> NaN \<Longrightarrow> np_max \<lparr>dtype = t, shape = s, data = replicate n c\<rparr> = Inr c"
proof -
  have "c \<noteq> NaN \<Longrightarrow> fold fmaximum (replicate k c) c = c" for k
    by (induction k) (auto simp: fmaximum_def)
  then show "0 < n \<Longrightarrow> c \<noteq> NaN \<Longrightarrow> ?thesis"
    by (cases n) (simp_all add: np_max_def)
qed

lemma sanitized_Fin: "\<exists>rs. map nan_to_num1 xs = map Fin rs"
proof (induction xs)
  case Nil
  then show ?case by simp
next
  case (Cons v xs)
  then obtain rs where "map nan_to_num1 xs = map Fin rs" by blast
  moreover obtain x where "nan_to_num1 v = Fin x" using nan_to_num1_Fin by blast
  ultimately have "map nan_to_num1 (v # xs) = map Fin (x # rs)" by simp
  then show ?case by blast
qed

lemma np_min_Inr_nonempty: "np_min a = Inr m \<Longrightarrow> data a \<noteq> []"
  by (auto simp: np_min_def)

lemma fsub_clamped:
  assumes "0 \<le> a - b" and "a - b < overflow_threshold"
  shows "fsub (Fin a) (Fin b) = Fin (min (a - b) float_max)"
  using assms float_max_less_threshold by (simp add: fresult_def min_def)

lemma scaled_quotient:
  assumes "0 \<le> e" and "e \<le> d" and "0 < d" and "0 \<le> s" and "s \<le> 1000"
  shows "fmul (fdiv (Fin e) (Fin d)) (Fin s) = Fin (e / d * s)"
proof -
  have q0: "0 \<le> e / d" using assms(1,3) by simp
  have q1: "e / d \<le> 1" using assms(2,3) by simp
  have "fresult (e / d) = Fin (e / d)"
    by (rule fresult_fin) (use q0 q1 float_max_ge in linarith)
  moreover have "fdiv (Fin e) (Fin d) = fresult (e / d)"
    using assms(3) by simp
  ultimately have 2: "fdiv (Fin e) (Fin d) = Fin (e / d)"
    by (rule back_subst [where P = "\<lambda>t. fdiv (Fin e) (Fin d) = t", rotated])
  have p0: "0 \<le> e / d * s" using q0 assms(4) by (rule mult_nonneg_nonneg)
  have "e / d * s \<le> 1 * s" using q1 assms(4) by (rule mult_right_mono)
  then have p1: "e / d * s \<le> float_max" using assms(5) float_max_ge by linarith
  have "fresult (e / d * s) = Fin (e / d * s)"
    by (rule fresult_fin) (use p0 p1 in linarith)
  then have 3: "fmul (Fin (e / d)) (Fin s) = Fin (e / d * s)"
    by (simp only: fmul.simps)
  show ?thesis by (simp only: 2 3)
qed

lemma isub_self: "isub c c = Fin 0"
  by (simp add: isub_def wrap64_def)

lemma set_dtype_same: "dtype a = t \<Longrightarrow> a\<lparr>dtype := t\<rparr> = a"
  by (cases a) simp

lemma sanitized_simps [simp]:
  "shape (sanitized a) = shape a" "dtype (sanitized a) = dtype a"
  "length (data (sanitized a)) = length (data a)"
  by (simp_all add: sanitized_def split: np_dtype.splits)

section \<open>Facts about process_depth_array\<close>

text \<open>
  The value of the result: the array is sanitized, rescaled when its maximum exceeds its
  minimum, and multiplied by the scale.
\<close>

lemma process_result:
  assumes "r < length h" and "dtype (h ! r) = Float64"
    and "np_min (map_array nan_to_num1 (h ! r)) = Inr mn"
    and "np_max (map_array nan_to_num1 (h ! r)) = Inr mx"
  shows "\<exists>h' a. process_depth_array self h r = (h', Inr a) \<and> a < length h' \<and>
           h' ! a = map_array (\<lambda>v. fmul (if flt (Fin 0) (fsub mx mn)
                                         then fdiv (fsub (nan_to_num1 v) mn) (fsub mx mn)
                                         else nan_to_num1 v) (Fin (depth_scale self))) (h ! r)"
proof -
  have san: "sanitized (h ! r) = map_array nan_to_num1 (h ! r)"
    using assms(2) by (simp add: sanitized_def)
  have same: "(h ! r)\<lparr>data := xs, dtype := Float64\<rparr> = (h ! r)\<lparr>data := xs\<rparr>" for xs
    using assms(2) by (cases "h ! r") simp
  show ?thesis
    using assms
    by (simp add: process_depth_array_def nan_to_num_def alloc_def arr_sub_def arr_div_def
        arr_imul_def san np_sub_def Let_def nth_append map_array_def comp_def same)
qed

lemma process_raises:
  assumes "data (h ! r) = []"
  shows "\<exists>h' e. process_depth_array self h r = (h', Inl e)"
proof -
  have "data (sanitized (h ! r)) = []"
    using assms by (simp add: sanitized_def split: np_dtype.splits)
  then show ?thesis
    by (simp add: process_depth_array_def nan_to_num_def alloc_def np_min_def Let_def)
qed

text \<open>An array of integers whose elements are all equal: the multiplication in place raises.\<close>

lemma process_flat_int_raises:
  assumes "r < length h" and "dtype (h ! r) = Int64"
    and "data (h ! r) = replicate n c" and "0 < n" and "c \<noteq> NaN"
  shows "process_depth_array self h r
     = (h @ [h ! r], Inl cast_error)"
proof -
  have san: "sanitized (h ! r) = h ! r" using assms(2) by (simp add: sanitized_def)
  have arr: "h ! r = \<lparr>dtype = Int64, shape = shape (h ! r), data = replicate n c\<rparr>"
    using assms(2,3) by (cases "h ! r") simp
  have mn: "np_min (h ! r) = Inr c"
    by (subst arr) (rule np_min_replicate [OF assms(4,5)])
  have mx: "np_max (h ! r) = Inr c"
    by (subst arr) (rule np_max_replicate [OF assms(4,5)])
  show ?thesis
    using assms(1,2) mn mx
    by (simp add: process_depth_array_def nan_to_num_def alloc_def san np_sub_def isub_self
        not_flt_self arr_imul_def)
qed

section \<open>Depth normalization of a flat array\<close>

text \<open>
  Claim C1, as the specification states it: for a 2D array whose elements all equal a
  constant \<open>c\<close>, the result of \<^verbatim>\<open>process_depth_array\<close> is all zero, whatever \<open>c\<close> and the
  scale are. The code does not do that: when the maximum does not exceed the minimum the
  rescaling is skipped and the array keeps its values. A 2 by 2 array of fives with scale
  1 comes back as a 2 by 2 array of fives.
\<close>

theorem process_flat_counterexample:
  "process_depth_array \<lparr>use_cube = False, depth_scale = 1\<rparr>
       [\<lparr>dtype = Float64, shape = [2, 2], data = [Fin 5, Fin 5, Fin 5, Fin 5]\<rparr>] 0
     = ([\<lparr>dtype = Float64, shape = [2, 2], data = [Fin 5, Fin 5, Fin 5, Fin 5]\<rparr>,
         \<lparr>dtype = Float64, shape = [2, 2], data = [Fin 5, Fin 5, Fin 5, Fin 5]\<rparr>], Inr 1)"
proof -
  have "fresult 5 = Fin 5" by (rule fresult_fin) (use float_max_ge in simp)
  then show ?thesis
    by (simp add: process_depth_array_def nan_to_num_def alloc_def arr_sub_def arr_div_def
        arr_imul_def sanitized_def np_sub_def np_min_def np_max_def fminimum_def fmaximum_def
        flt_def map_array_def)
qed

text \<open>
  Claim C1, amended: for an array of floats with at least one element whose elements all
  equal \<open>c\<close>, \<^verbatim>\<open>process_depth_array\<close> returns an array of the same shape whose elements
  all equal the sanitized \<open>c\<close> times the scale. That is zero when \<open>c\<close> is zero or NaN; it
  is not zero for every \<open>c\<close>.
\<close>

theorem process_constant_array:
  assumes "r < length h" and "dtype (h ! r) = Float64"
    and "data (h ! r) = replicate n c" and "0 < n"
  shows "\<exists>h' a. process_depth_array self h r = (h', Inr a) \<and> a < length h' \<and>
           shape (h' ! a) = shape (h ! r) \<and>
           data (h' ! a) = replicate n (fmul (nan_to_num1 c) (Fin (depth_scale self))) \<and>
           (c = Fin 0 \<or> c = NaN \<longrightarrow> data (h' ! a) = replicate n (Fin 0))"
proof -
  obtain x where x: "nan_to_num1 c = Fin x" using nan_to_num1_Fin by blast
  have san: "map_array nan_to_num1 (h ! r)
      = \<lparr>dtype = Float64, shape = shape (h ! r), data = replicate n (Fin x)\<rparr>"
    using assms(2,3) x by (cases "h ! r") (simp add: map_array_def)
  have mn: "np_min (map_array nan_to_num1 (h ! r)) = Inr (Fin x)"
    unfolding san using assms(4) by (rule np_min_replicate) simp
  have mx: "np_max (map_array nan_to_num1 (h ! r)) = Inr (Fin x)"
    unfolding san using assms(4) by (rule np_max_replicate) simp
  from process_result [OF assms(1,2) mn mx, of self]
  show ?thesis
    using assms(3) x by (auto simp: not_flt_self)
qed

theorem process_constant_array_witness:
  "\<exists>h' a. process_depth_array \<lparr>use_cube = False, depth_scale = 2\<rparr>
             [\<lparr>dtype = Float64, shape = [2, 2], data = [Fin 5, Fin 5, Fin 5, Fin 5]\<rparr>] 0 = (h', Inr a) \<and>
           data (h' ! a) = [Fin 10, Fin 10, Fin 10, Fin 10]"
proof -
  have 1: "(0::nat) < length [\<lparr>dtype = Float64, shape = [2, 2], data = [Fin 5, Fin 5, Fin 5, Fin 5]\<rparr>]"
    by simp
  have 2: "data ([\<lparr>dtype = Float64, shape = [2, 2], data = [Fin 5, Fin 5, Fin 5, Fin 5]\<rparr>] ! 0)
             = replicate 4 (Fin 5)"
    by (simp add: numeral_eq_Suc)
  have 3: "(0::nat) < 4" by simp
  have 4: "dtype ([\<lparr>dtype = Float64, shape = [2, 2], data = [Fin 5, Fin 5, Fin 5, Fin 5]\<rparr>] ! 0)
             = Float64"
    by simp
  have 5: "fresult 10 = Fin 10" by (rule fresult_fin) (use float_max_ge in simp)
  show ?thesis
    using process_constant_array [OF 1 4 2 3, of "\<lparr>use_cube = False, depth_scale = 2\<rparr>"] 5
    by (auto simp: numeral_eq_Suc)
qed

section \<open>Depth normalization of an array with a range\<close>

text \<open>
  Claim C3: for every 2D array whose maximum exceeds its minimum, the result of
  \<^verbatim>\<open>process_depth_array\<close> has minimum 0 and maximum the scale. The code misses that when
  the difference of maximum and minimum overflows. For the 1 by 2 array of the smallest
  and the largest finite float the difference is infinite, the second element becomes
  infinity divided by infinity, and the result is \<open>[0, NaN]\<close>, with NaN as its minimum
  and its maximum. The array of minus infinity and infinity ends the same way, since
  \<^verbatim>\<open>np.nan_to_num\<close> turns it into the former.
\<close>

theorem process_overflow_gives_nan:
  "snd (process_depth_array \<lparr>use_cube = False, depth_scale = 1\<rparr>
          [\<lparr>dtype = Float64, shape = [1, 2], data = [Fin (- float_max), Fin float_max]\<rparr>] 0) = Inr 3 \<and>
   data (fst (process_depth_array \<lparr>use_cube = False, depth_scale = 1\<rparr>
          [\<lparr>dtype = Float64, shape = [1, 2], data = [Fin (- float_max), Fin float_max]\<rparr>] 0) ! 3)
     = [Fin 0, NaN] \<and>
   np_min (fst (process_depth_array \<lparr>use_cube = False, depth_scale = 1\<rparr>
          [\<lparr>dtype = Float64, shape = [1, 2], data = [Fin (- float_max), Fin float_max]\<rparr>] 0) ! 3) = Inr NaN \<and>
   np_max (fst (process_depth_array \<lparr>use_cube = False, depth_scale = 1\<rparr>
          [\<lparr>dtype = Float64, shape = [1, 2], data = [Fin (- float_max), Fin float_max]\<rparr>] 0) ! 3) = Inr NaN \<and>
   snd (process_depth_array \<lparr>use_cube = False, depth_scale = 1\<rparr>
          [\<lparr>dtype = Float64, shape = [1, 2], data = [NInf, PInf]\<rparr>] 0) = Inr 3 \<and>
   data (fst (process_depth_array \<lparr>use_cube = False, depth_scale = 1\<rparr>
          [\<lparr>dtype = Float64, shape = [1, 2], data = [NInf, PInf]\<rparr>] 0) ! 3)
     = [Fin 0, NaN]"
  using float_max_pos
  by (simp add: process_depth_array_def nan_to_num_def alloc_def arr_sub_def arr_div_def
      arr_imul_def sanitized_def np_sub_def np_min_def np_max_def fminimum_def fmaximum_def
      flt_def fresult_double map_array_def)

text \<open>
  Where that difference stays below the point of overflow, the code does what the claim
  says, for every scale in the declared range.
\<close>

lemma process_range:
  assumes "r < length h" and "dtype (h ! r) = Float64"
    and "np_min (map_array nan_to_num1 (h ! r)) = Inr (Fin mn)"
    and "np_max (map_array nan_to_num1 (h ! r)) = Inr (Fin mx)"
    and "mn < mx" and "mx - mn < overflow_threshold"
    and "valid_operator self"
  shows "\<exists>h' a. process_depth_array self h r = (h', Inr a) \<and> a < length h' \<and>
           shape (h' ! a) = shape (h ! r) \<and>
           np_min (h' ! a) = Inr (Fin 0) \<and>
           np_max (h' ! a) = Inr (Fin (depth_scale self))"
proof -
  let ?s = "depth_scale self"
  let ?d = "min (mx - mn) float_max"
  let ?g = "\<lambda>x. min (x - mn) float_max / ?d * ?s"
  obtain rs where rs: "map nan_to_num1 (data (h ! r)) = map Fin rs"
    using sanitized_Fin by blast
  have ne: "rs \<noteq> []" using np_min_Inr_nonempty [OF assms(3)] rs by auto
  have san: "data (map_array nan_to_num1 (h ! r)) = map Fin rs" using rs by simp
  have mn: "mn = Min (set rs)" using np_min_Fin [OF san ne] assms(3) by simp
  have mx: "mx = Max (set rs)" using np_max_Fin [OF san ne] assms(4) by simp
  have s: "0 \<le> ?s" "?s \<le> 1000" using assms(7) by (simp_all add: valid_operator_def)
  have dpos: "0 < ?d" using assms(5) float_max_pos by simp
  have d: "fsub (Fin mx) (Fin mn) = Fin ?d"
    using assms(5,6) by (intro fsub_clamped) simp_all
  have pos: "flt (Fin 0) (Fin ?d)" using dpos by (auto simp: flt_def min_def)
  have bounds: "mn \<le> x \<and> x \<le> mx" if "x \<in> set rs" for x
    using that mn mx by simp
  have el: "fmul (fdiv (fsub (Fin x) (Fin mn)) (Fin ?d)) (Fin ?s) = Fin (?g x)"
    if "x \<in> set rs" for x
  proof -
    have b: "0 \<le> x - mn" "x - mn \<le> mx - mn" using bounds [OF that] by simp_all
    have 1: "fsub (Fin x) (Fin mn) = Fin (min (x - mn) float_max)"
      using b assms(6) by (intro fsub_clamped) simp_all
    have e0: "0 \<le> min (x - mn) float_max" using b(1) float_max_pos by (auto simp: min_def)
    have e1: "min (x - mn) float_max \<le> ?d" using b(2) by (auto simp: min_def)
    show ?thesis unfolding 1 using e0 e1 dpos s by (rule scaled_quotient)
  qed
  obtain h' a where res: "process_depth_array self h r = (h', Inr a)" "a < length h'"
    and val: "h' ! a = map_array (\<lambda>v. fmul (if flt (Fin 0) (fsub (Fin mx) (Fin mn))
                                         then fdiv (fsub (nan_to_num1 v) (Fin mn)) (fsub (Fin mx) (Fin mn))
                                         else nan_to_num1 v) (Fin ?s)) (h ! r)"
    using process_result [OF assms(1,2,3,4), of self] by blast
  have "data (h' ! a) = map (\<lambda>v. fmul (fdiv (fsub v (Fin mn)) (Fin ?d)) (Fin ?s))
                          (map nan_to_num1 (data (h ! r)))"
    unfolding val d using pos by (simp add: comp_def)
  also have "\<dots> = map Fin (map ?g rs)"
    unfolding rs using el by (simp add: comp_def)
  finally have out: "data (h' ! a) = map Fin (map ?g rs)" .
  have ne': "map ?g rs \<noteq> []" using ne by simp
  have mn_in: "mn \<in> set rs" unfolding mn using ne by (intro Min_in) simp_all
  have mx_in: "mx \<in> set rs" unfolding mx using ne by (intro Max_in) simp_all
  have q: "0 \<le> min (x - mn) float_max / ?d \<and> min (x - mn) float_max / ?d \<le> 1"
    if "x \<in> set rs" for x
  proof -
    have "0 \<le> min (x - mn) float_max" using bounds [OF that] float_max_pos by (auto simp: min_def)
    moreover have "min (x - mn) float_max \<le> ?d" using bounds [OF that] by (auto simp: min_def)
    ultimately show ?thesis using dpos by simp
  qed
  have g0: "0 \<le> ?g x" if "x \<in> set rs" for x
    using q [OF that] s(1) by (intro mult_nonneg_nonneg) simp_all
  have g1: "?g x \<le> ?s" if "x \<in> set rs" for x
  proof -
    have "?g x \<le> 1 * ?s" using q [OF that] s(1) by (intro mult_right_mono) simp_all
    then show ?thesis by simp
  qed
  have "Min (set (map ?g rs)) = 0"
  proof (rule Min_eqI)
    show "finite (set (map ?g rs))" by simp
    show "0 \<le> y" if "y \<in> set (map ?g rs)" for y using that g0 by auto
    have "?g mn = 0" using float_max_pos by simp
    then show "0 \<in> set (map ?g rs)" using mn_in by force
  qed
  then have min0: "np_min (h' ! a) = Inr (Fin 0)"
    using np_min_Fin [OF out ne'] by simp
  have "Max (set (map ?g rs)) = ?s"
  proof (rule Max_eqI)
    show "finite (set (map ?g rs))" by simp
    show "y \<le> ?s" if "y \<in> set (map ?g rs)" for y using that g1 by auto
    have "?d \<noteq> 0" using dpos by (auto simp: min_def)
    then have "?g mx = ?s" by simp
    then show "?s \<in> set (map ?g rs)" using mx_in by force
  qed
  then have max1: "np_max (h' ! a) = Inr (Fin ?s)"
    using np_max_Fin [OF out ne'] by simp
  show ?thesis using res val min0 max1 by simp
qed

section \<open>The caller's array is not changed\<close>

text \<open>
  Claim C10: \<^verbatim>\<open>process_depth_array\<close> never changes the array it is given. Whatever the
  call returns or raises, every array that was in the store before the call, the
  argument among them, holds the same shape and elements after it: the sanitizing copy is
  a new array, and the multiplication in place is applied to that copy or to the rescaled
  array made from it.
\<close>

theorem process_depth_array_frame:
  "r < length h \<Longrightarrow>
     length h \<le> length (fst (process_depth_array self h r)) \<and>
     fst (process_depth_array self h r) ! r = h ! r \<and>
     (\<forall>a < length h. fst (process_depth_array self h r) ! a = h ! a)"
  by (auto simp: process_depth_array_def nan_to_num_def alloc_def arr_sub_def arr_div_def
      arr_imul_def Let_def nth_append
      split: sum.splits if_splits prod.splits np_dtype.splits)

theorem process_depth_array_frame_witness:
  "fst (process_depth_array \<lparr>use_cube = False, depth_scale = 3\<rparr>
          [\<lparr>dtype = Float64, shape = [1, 2], data = [Fin 2, Fin 4]\<rparr>] 0) ! 0
     = \<lparr>dtype = Float64, shape = [1, 2], data = [Fin 2, Fin 4]\<rparr>"
proof -
  have "(0::nat) < length [\<lparr>dtype = Float64, shape = [1, 2], data = [Fin 2, Fin 4]\<rparr>]" by simp
  from process_depth_array_frame [OF this, of "\<lparr>use_cube = False, depth_scale = 3\<rparr>"]
  show ?thesis by simp
qed

section \<open>Facts about the grid mesh\<close>

lemma grid_index_less: "y < h \<Longrightarrow> x < w \<Longrightarrow> y * w + x < h * (w::nat)"
proof -
  assume a: "y < h" "x < w"
  then have "y * w + x < Suc y * w" by simp
  also have "\<dots> \<le> h * w" using a(1) by (intro mult_le_mono1) simp
  finally show ?thesis .
qed

lemma product_upt_nth:
  assumes "y < h" and "x < w"
  shows "List.product [0..<h] [0..<w] ! (y * w + x) = (y, x)"
proof -
  have "y * w + x < length [0..<h] * length [0..<w]"
    using grid_index_less [OF assms] by simp
  then have "List.product [0..<h] [0..<w] ! (y * w + x)
      = ([0..<h] ! ((y * w + x) div length [0..<w]), [0..<w] ! ((y * w + x) mod length [0..<w]))"
    by (rule product_nth)
  then show ?thesis using assms by simp
qed

lemma grid_vertex_ok:
  "shape a = [h, w] \<Longrightarrow> y < h \<Longrightarrow> x < w \<Longrightarrow>
     grid_vertex a h w y x
       = Inr (x_norm h w x - 1 / 2, y_norm h w y - 1 / 2, data a ! ((h - 1 - y) * w + x))"
  by (simp add: grid_vertex_def aget_def)

lemma add_verts_ok:
  "shape a = [h, w] \<Longrightarrow> \<forall>(y, x) \<in> set ps. y < h \<and> x < w \<Longrightarrow>
     add_verts a h w ps bm
       = Inr (bm\<lparr>bm_verts := bm_verts bm
                @ map (\<lambda>(y, x). (x_norm h w x - 1 / 2, y_norm h w y - 1 / 2,
                                  data a ! ((h - 1 - y) * w + x))) ps\<rparr>)"
proof (induction ps arbitrary: bm)
  case Nil
  then show ?case by simp
next
  case (Cons p ps)
  obtain y x where p: "p = (y, x)" by (cases p)
  with Cons.prems have "y < h" "x < w" by auto
  with Cons p show ?case by (simp add: grid_vertex_ok verts_new_def)
qed

lemma try_quad_verts [simp]: "bm_verts (try_quad fc bm q) = bm_verts bm"
  by (auto simp: try_quad_def verts_get_def faces_new_def split: option.splits)

lemma add_quads_verts [simp]: "bm_verts (add_quads fc w ps bm) = bm_verts bm"
  by (induction ps arbitrary: bm) auto

lemma try_quad_faces:
  "bm_faces (try_quad fc bm q) = bm_faces bm \<or> bm_faces (try_quad fc bm q) = bm_faces bm @ [q]"
  by (auto simp: try_quad_def verts_get_def faces_new_def split: option.splits)

lemma add_quads_faces_subset:
  "set (bm_faces (add_quads fc w ps bm))
     \<subseteq> set (bm_faces bm) \<union> (\<lambda>(y, x). quad w y x) ` set ps"
proof (induction ps arbitrary: bm)
  case Nil
  then show ?case by simp
next
  case (Cons p ps)
  obtain y x where p: "p = (y, x)" by (cases p)
  have "set (bm_faces (try_quad fc bm (quad w y x))) \<subseteq> set (bm_faces bm) \<union> {quad w y x}"
    using try_quad_faces [of fc bm "quad w y x"] by auto
  with Cons.IH [of "try_quad fc bm (quad w y x)"] show ?case
    unfolding p by auto
qed

lemma add_quads_faces_mono:
  "set (bm_faces bm) \<subseteq> set (bm_faces (add_quads fc w ps bm))"
proof (induction ps arbitrary: bm)
  case Nil
  then show ?case by simp
next
  case (Cons p ps)
  obtain y x where p: "p = (y, x)" by (cases p)
  have "set (bm_faces bm) \<subseteq> set (bm_faces (try_quad fc bm (quad w y x)))"
    using try_quad_faces [of fc bm "quad w y x"] by auto
  with Cons.IH [of "try_quad fc bm (quad w y x)"] show ?case
    unfolding p by auto
qed

lemma try_quad_accepted:
  "fc bm q = None \<Longrightarrow> list_all (\<lambda>i. i < length (bm_verts bm)) q \<Longrightarrow>
     bm_faces (try_quad fc bm q) = bm_faces bm @ [q]"
  by (simp add: try_quad_def verts_get_def faces_new_def)

lemma try_quad_refused:
  "fc bm q = Some m \<Longrightarrow> try_quad fc bm q = bm"
  by (simp add: try_quad_def verts_get_def faces_new_def)

lemma add_quads_accepted:
  assumes "(y, x) \<in> set ps" and "\<forall>m. fc m (quad w y x) = None"
    and "list_all (\<lambda>i. i < length (bm_verts bm)) (quad w y x)"
  shows "quad w y x \<in> set (bm_faces (add_quads fc w ps bm))"
  using assms
proof (induction ps arbitrary: bm)
  case Nil
  then show ?case by simp
next
  case (Cons p ps)
  obtain y' x' where p: "p = (y', x')" by (cases p)
  let ?bm = "try_quad fc bm (quad w y' x')"
  show ?case
  proof (cases "p = (y, x)")
    case True
    then have "bm_faces ?bm = bm_faces bm @ [quad w y x]"
      using Cons.prems p by (simp add: try_quad_accepted)
    then have "quad w y x \<in> set (bm_faces ?bm)" by simp
    then show ?thesis using add_quads_faces_mono [of ?bm fc w ps] p by auto
  next
    case False
    then have "(y, x) \<in> set ps" using Cons.prems by auto
    moreover have "list_all (\<lambda>i. i < length (bm_verts ?bm)) (quad w y x)"
      using Cons.prems by simp
    ultimately show ?thesis using Cons.IH [of ?bm] Cons.prems(2) p by simp
  qed
qed

lemma create_depthmap_bmesh_ok:
  assumes "shape a = [h, w]"
  shows "create_depthmap_bmesh fc a
     = Inr (add_quads fc w (List.product [0..<h - 1] [0..<w - 1])
         \<lparr>bm_verts = map (\<lambda>(y, x). (x_norm h w x - 1 / 2, y_norm h w y - 1 / 2,
                                    data a ! ((h - 1 - y) * w + x)))
                        (List.product [0..<h] [0..<w]),
          bm_faces = []\<rparr>)"
proof -
  have "\<forall>(y, x) \<in> set (List.product [0..<h] [0..<w]). y < h \<and> x < w" by auto
  from add_verts_ok [OF assms this, of bmesh_new]
  show ?thesis using assms by (simp add: create_depthmap_bmesh_def bmesh_new_def)
qed

lemma create_depthmap_bmesh_verts:
  assumes "shape a = [h, w]" and "create_depthmap_bmesh fc a = Inr bm"
  shows "bm_verts bm = map (\<lambda>(y, x). (x_norm h w x - 1 / 2, y_norm h w y - 1 / 2,
                                    data a ! ((h - 1 - y) * w + x)))
                        (List.product [0..<h] [0..<w])"
  using assms(2) unfolding create_depthmap_bmesh_ok [OF assms(1)] by auto

lemma create_depthmap_bmesh_length:
  assumes "shape a = [h, w]" and "create_depthmap_bmesh fc a = Inr bm"
  shows "length (bm_verts bm) = h * w"
  by (simp add: create_depthmap_bmesh_verts [OF assms])

lemma y_norm_le_top: "y < h \<Longrightarrow> y_norm h w y \<le> y_norm h w (h - 1)"
proof -
  assume y: "y < h"
  have m: "0 \<le> snd (mesh_size h w)" by (simp add: mesh_size_def)
  show ?thesis
  proof (cases "1 < h")
    case True
    then have "real y / real (h - 1) \<le> real (h - 1) / real (h - 1)"
      using y by (intro divide_right_mono) simp_all
    then have "real y / real (h - 1) * snd (mesh_size h w)
        \<le> real (h - 1) / real (h - 1) * snd (mesh_size h w)"
      using m by (rule mult_right_mono)
    then show ?thesis using True by (simp only: y_norm_def if_True)
  next
    case False
    then show ?thesis by (simp add: y_norm_def)
  qed
qed

section \<open>The row flip\<close>

text \<open>
  Claim C5: for every 2D array of shape \<open>(h, w)\<close> and every grid position \<open>x < w\<close>,
  \<open>y < h\<close>, the grid is built, the vertex of that position is the one of index
  \<open>y * w + x\<close>, and its depth is the element \<open>array[h - 1 - y, x]\<close>. So the vertices of
  output row 0 sample source row \<open>h - 1\<close>, and source row 0 is sampled at output row
  \<open>h - 1\<close>, where \<open>y_norm\<close> is largest.
\<close>

theorem row_flip:
  assumes "shape a = [h, w]" and "y < h" and "x < w"
  shows "\<exists>bm. create_depthmap_bmesh fc a = Inr bm \<and>
           y * w + x < length (bm_verts bm) \<and>
           fst (bm_verts bm ! (y * w + x)) = x_norm h w x - 1 / 2 \<and>
           fst (snd (bm_verts bm ! (y * w + x))) = y_norm h w y - 1 / 2 \<and>
           aget a (h - 1 - y) x = Inr (snd (snd (bm_verts bm ! (y * w + x)))) \<and>
           y_norm h w y \<le> y_norm h w (h - 1)"
proof -
  obtain bm where bm: "create_depthmap_bmesh fc a = Inr bm"
    using create_depthmap_bmesh_ok [OF assms(1)] by blast
  note verts = create_depthmap_bmesh_verts [OF assms(1) bm]
  have len: "y * w + x < length (bm_verts bm)"
    using grid_index_less [OF assms(2,3)] by (simp add: verts)
  have nth: "bm_verts bm ! (y * w + x)
      = (x_norm h w x - 1 / 2, y_norm h w y - 1 / 2, data a ! ((h - 1 - y) * w + x))"
    using grid_index_less [OF assms(2,3)] product_upt_nth [OF assms(2,3)]
    by (simp add: verts)
  have "aget a (h - 1 - y) x = Inr (data a ! ((h - 1 - y) * w + x))"
    using assms by (simp add: aget_def)
  then show ?thesis using bm len nth y_norm_le_top [OF assms(2)] by simp
qed

theorem row_flip_witness:
  "\<exists>bm. create_depthmap_bmesh accept_all \<lparr>dtype = Float64, shape = [2, 2], data = [Fin 1, Fin 2, Fin 3, Fin 4]\<rparr>
          = Inr bm \<and>
        snd (snd (bm_verts bm ! 1)) = Fin 4 \<and> snd (snd (bm_verts bm ! 3)) = Fin 2"
proof -
  let ?a = "\<lparr>dtype = Float64, shape = [2, 2], data = [Fin 1, Fin 2, Fin 3, Fin 4]\<rparr>"
  have sh: "shape ?a = [2, 2]" by simp
  have 0: "(0::nat) < 2" and 1: "(1::nat) < 2" by simp_all
  obtain bm where bm: "create_depthmap_bmesh accept_all ?a = Inr bm"
    and a: "aget ?a (2 - 1 - 0) 1 = Inr (snd (snd (bm_verts bm ! (0 * 2 + 1))))"
    using row_flip [OF sh 0 1, of accept_all] by blast
  obtain bm' where bm': "create_depthmap_bmesh accept_all ?a = Inr bm'"
    and b: "aget ?a (2 - 1 - 1) 1 = Inr (snd (snd (bm_verts bm' ! (1 * 2 + 1))))"
    using row_flip [OF sh 1 1, of accept_all] by blast
  from bm bm' have "bm' = bm" by simp
  with a b bm show ?thesis by (simp add: aget_def)
qed

section \<open>Aspect normalization\<close>

lemma product_2_4:
  "List.product [0..<2] [0..<4]
     = [(0, 0), (0, 1), (0, 2), (0, 3), (1, 0), (1, 1), (1, 2), (1, 3)]"
  by code_simp

lemma mesh_size_2_4: "mesh_size 2 4 = (1, 1 / 2)"
  by (simp add: mesh_size_def)

lemma verts_2_4:
  assumes "shape a = [2, 4]" and "create_depthmap_bmesh fc a = Inr bm"
  shows "map fst (bm_verts bm) = [- 1 / 2, - 1 / 6, 1 / 6, 1 / 2, - 1 / 2, - 1 / 6, 1 / 6, 1 / 2]"
    and "map (fst \<circ> snd) (bm_verts bm) = [- 1 / 2, - 1 / 2, - 1 / 2, - 1 / 2, 0, 0, 0, 0]"
  unfolding create_depthmap_bmesh_verts [OF assms] product_2_4
  by (simp_all add: x_norm_def y_norm_def mesh_size_2_4)

text \<open>
  Claim C7, as the specification states it, ends with: for width 4 and height 2 the y
  coordinates span \<open>[-0.25, 0.25]\<close>. They do not: \<open>y_norm\<close> runs from 0 to
  \<open>mesh_height = 0.5\<close> and the vertex takes \<open>y_norm - 0.5\<close>, so the y coordinates of a 2 by 4
  grid run from \<open>-0.5\<close> to \<open>0\<close>.
\<close>

theorem y_range_counterexample:
  "Min (set (map (fst \<circ> snd) (bm_verts (projr (create_depthmap_bmesh accept_all
       \<lparr>dtype = Float64, shape = [2, 4], data = [Fin 0, Fin 1, Fin 2, Fin 3, Fin 4, Fin 5, Fin 6, Fin 7]\<rparr>)))))
     = - 1 / 2 \<and>
   Max (set (map (fst \<circ> snd) (bm_verts (projr (create_depthmap_bmesh accept_all
       \<lparr>dtype = Float64, shape = [2, 4], data = [Fin 0, Fin 1, Fin 2, Fin 3, Fin 4, Fin 5, Fin 6, Fin 7]\<rparr>)))))
     = 0"
proof -
  let ?a = "\<lparr>dtype = Float64, shape = [2, 4], data = [Fin 0, Fin 1, Fin 2, Fin 3, Fin 4, Fin 5, Fin 6, Fin 7]\<rparr>"
  have sh: "shape ?a = [2, 4]" by simp
  obtain bm where bm: "create_depthmap_bmesh accept_all ?a = Inr bm"
    using create_depthmap_bmesh_ok [OF sh] by blast
  show ?thesis
    unfolding bm sum.sel verts_2_4 [OF sh bm] by simp
qed

text \<open>
  Claim C7, amended: \<open>mesh_width\<close> and \<open>mesh_height\<close> are both 1, except that
  \<open>mesh_height\<close> is \<open>height / width\<close> when the width is larger and \<open>mesh_width\<close> is
  \<open>width / height\<close> when the height is larger; for width 4 and height 2 they are 1 and
  0.5, the x coordinates of the vertices span \<open>[-0.5, 0.5]\<close> and the y coordinates span
  \<open>[-0.5, 0]\<close>.
\<close>

theorem aspect_normalization:
  assumes "shape a = [2, 4]"
  shows "mesh_size height width =
           (if width > height then (1, real height / real width)
            else if height > width then (real width / real height, 1)
            else (1, 1)) \<and>
         mesh_size 2 4 = (1, 1 / 2) \<and>
         (\<exists>bm. create_depthmap_bmesh fc a = Inr bm \<and>
            Min (set (map fst (bm_verts bm))) = - 1 / 2 \<and>
            Max (set (map fst (bm_verts bm))) = 1 / 2 \<and>
            Min (set (map (fst \<circ> snd) (bm_verts bm))) = - 1 / 2 \<and>
            Max (set (map (fst \<circ> snd) (bm_verts bm))) = 0)"
proof -
  obtain bm where bm: "create_depthmap_bmesh fc a = Inr bm"
    using create_depthmap_bmesh_ok [OF assms] by blast
  have "Min (set (map fst (bm_verts bm))) = - 1 / 2"
    "Max (set (map fst (bm_verts bm))) = 1 / 2"
    "Min (set (map (fst \<circ> snd) (bm_verts bm))) = - 1 / 2"
    "Max (set (map (fst \<circ> snd) (bm_verts bm))) = 0"
    unfolding verts_2_4 [OF assms bm] by simp_all
  with bm show ?thesis by (simp add: mesh_size_def)
qed

theorem aspect_normalization_witness:
  "\<exists>bm. create_depthmap_bmesh accept_all
           \<lparr>dtype = Float64, shape = [2, 4], data = [Fin 0, Fin 1, Fin 2, Fin 3, Fin 4, Fin 5, Fin 6, Fin 7]\<rparr>
          = Inr bm \<and>
        Min (set (map (fst \<circ> snd) (bm_verts bm))) = - 1 / 2 \<and>
        Max (set (map (fst \<circ> snd) (bm_verts bm))) = 0"
proof -
  have "shape \<lparr>dtype = Float64, shape = [2, 4], data = [Fin 0, Fin 1, Fin 2, Fin 3, Fin 4, Fin 5, Fin 6, Fin 7]\<rparr>
          = [2, 4]"
    by simp
  from aspect_normalization [OF this, of 2 4 accept_all] show ?thesis by blast
qed

section \<open>A refused face does not stop the grid\<close>

text \<open>
  Claim C8: whatever faces Blender refuses, \<^verbatim>\<open>create_depthmap_bmesh\<close> returns a mesh for
  every 2D array, with all its vertices; its faces are quads of the grid; a refused quad
  leaves the mesh as it was and the loop goes on with the positions after it; and every
  quad that Blender accepts in any state of the mesh is among the faces, whatever
  happened to the quads before it.
\<close>

theorem face_failures_skipped:
  assumes "shape a = [h, w]"
  shows "\<exists>bm. create_depthmap_bmesh fc a = Inr bm \<and>
           length (bm_verts bm) = h * w \<and>
           set (bm_faces bm) \<subseteq> {quad w y x | y x. y < h - 1 \<and> x < w - 1} \<and>
           (\<forall>y < h - 1. \<forall>x < w - 1.
              (\<forall>m. fc m (quad w y x) = None) \<longrightarrow> quad w y x \<in> set (bm_faces bm)) \<and>
           (\<forall>m y x ps e. fc m (quad w y x) = Some e \<longrightarrow>
              add_quads fc w ((y, x) # ps) m = add_quads fc w ps m)"
proof -
  let ?vs = "map (\<lambda>(y, x). (x_norm h w x - 1 / 2, y_norm h w y - 1 / 2,
                                    data a ! ((h - 1 - y) * w + x)))
                        (List.product [0..<h] [0..<w])"
  let ?start = "\<lparr>bm_verts = ?vs, bm_faces = []\<rparr>"
  let ?ps = "List.product [0..<h - 1] [0..<w - 1]"
  let ?bm = "add_quads fc w ?ps ?start"
  have bm: "create_depthmap_bmesh fc a = Inr ?bm"
    by (rule create_depthmap_bmesh_ok [OF assms])
  have len: "length (bm_verts ?bm) = h * w" by simp
  have sub: "set (bm_faces ?bm) \<subseteq> {quad w y x | y x. y < h - 1 \<and> x < w - 1}"
  proof
    fix q assume "q \<in> set (bm_faces ?bm)"
    then have "q \<in> (\<lambda>(y, x). quad w y x) ` set ?ps"
      using add_quads_faces_subset [of fc w ?ps ?start] by auto
    then obtain y x where "q = quad w y x" "(y, x) \<in> set ?ps" by auto
    then show "q \<in> {quad w y x | y x. y < h - 1 \<and> x < w - 1}" by auto
  qed
  have acc: "quad w y x \<in> set (bm_faces ?bm)"
    if "y < h - 1" "x < w - 1" "\<forall>m. fc m (quad w y x) = None" for y x
  proof -
    have in_ps: "(y, x) \<in> set ?ps" using that by simp
    have "y * w + x < h * w" "y * w + (x + 1) < h * w"
      "(y + 1) * w + (x + 1) < h * w" "(y + 1) * w + x < h * w"
      using that grid_index_less [of y h x w] grid_index_less [of y h "x + 1" w]
        grid_index_less [of "y + 1" h "x + 1" w] grid_index_less [of "y + 1" h x w]
      by simp_all
    then have "list_all (\<lambda>i. i < length (bm_verts ?start)) (quad w y x)"
      by (simp add: quad_def)
    with in_ps that(3) show ?thesis by (rule add_quads_accepted)
  qed
  have skip: "add_quads fc w ((y, x) # ps) m = add_quads fc w ps m"
    if "fc m (quad w y x) = Some e" for m y x ps e
    using that by (simp add: try_quad_refused)
  show ?thesis
    using bm len sub acc skip by (intro exI [of _ ?bm]) blast
qed

theorem face_failures_skipped_witness:
  "\<exists>bm. create_depthmap_bmesh (refuse_face [0, 1, 4, 3])
           \<lparr>dtype = Float64, shape = [2, 3], data = [Fin 0, Fin 1, Fin 2, Fin 3, Fin 4, Fin 5]\<rparr> = Inr bm \<and>
        length (bm_verts bm) = 6 \<and> [1, 2, 5, 4] \<in> set (bm_faces bm)"
proof -
  let ?a = "\<lparr>dtype = Float64, shape = [2, 3], data = [Fin 0, Fin 1, Fin 2, Fin 3, Fin 4, Fin 5]\<rparr>"
  have sh: "shape ?a = [2, 3]" by simp
  obtain bm where bm: "create_depthmap_bmesh (refuse_face [0, 1, 4, 3]) ?a = Inr bm"
    and len: "length (bm_verts bm) = 2 * 3"
    and acc: "\<forall>y < 2 - 1. \<forall>x < 3 - 1.
        (\<forall>m. refuse_face [0, 1, 4, 3] m (quad 3 y x) = None) \<longrightarrow> quad 3 y x \<in> set (bm_faces bm)"
    using face_failures_skipped [OF sh, of "refuse_face [0, 1, 4, 3]"] by blast
  have "\<forall>m. refuse_face [0, 1, 4, 3] m (quad 3 0 1) = None"
    by (simp add: refuse_face_def quad_def)
  with acc have "quad 3 0 1 \<in> set (bm_faces bm)" by simp
  moreover have "quad 3 0 1 = [1, 2, 5, 4]" by (simp add: quad_def)
  ultimately have "[1, 2, 5, 4] \<in> set (bm_faces bm)" by (simp only:)
  with bm len show ?thesis by simp
qed

section \<open>Facts about the builders\<close>

lemma np_pad_shape [simp]: "shape (np_pad t h w xs c) = [h + 2, w + 2]"
  by (simp add: np_pad_def)

lemma np_max_nonempty: "data a \<noteq> [] \<Longrightarrow> \<exists>m. np_max a = Inr m"
  by (cases "data a") (simp_all add: np_max_def)

lemma np_min_nonempty: "data a \<noteq> [] \<Longrightarrow> \<exists>m. np_min a = Inr m"
  by (cases "data a") (simp_all add: np_min_def)

lemma base_verts_in_range:
  "list_all (\<lambda>i. i < (h + 2) * (w + 2)) (base_verts (h + 2) (w + 2))"
proof -
  have 1: "y * (w + 2) < (h + 2) * (w + 2)" if "y < h + 1" for y
    using grid_index_less [of y "h + 2" 0 "w + 2"] that by simp
  have 2: "(h + 1) * (w + 2) + x < (h + 2) * (w + 2)" if "x < w + 1" for x
    using grid_index_less [of "h + 1" "h + 2" x "w + 2"] that by simp
  have 3: "y * (w + 2) + (w + 1) < (h + 2) * (w + 2)" if "y < h" for y
    using grid_index_less [of y "h + 2" "w + 1" "w + 2"] that by simp
  have 4: "x < (h + 2) * (w + 2)" if "x < w" for x
    using grid_index_less [of 0 "h + 2" x "w + 2"] that by simp
  show ?thesis
    using 1 2 3 4 by (auto simp: base_verts_def list_all_iff)
qed

lemma set_base_verts:
  "set (base_verts H W)
     = (\<lambda>y. y * W) ` {0..<H - 1} \<union> (\<lambda>x. (H - 1) * W + x) ` {1..<W - 1}
       \<union> (\<lambda>y. y * W + (W - 1)) ` {0..<H - 2} \<union> {1..<W - 2}"
  by (simp add: base_verts_def Un_assoc)

lemma in_concat_map: "a \<in> set xs \<Longrightarrow> v \<in> set (f a) \<Longrightarrow> v \<in> set (concat (map f xs))"
  by auto

lemma border_vertsI:
  assumes "y < H" and "x < W" and "y = 0 \<or> y = H - 1 \<or> x = 0 \<or> x = W - 1"
  shows "y * W + x \<in> set (border_verts H W)"
proof -
  have y: "y \<in> set [0..<H]" and x: "x \<in> set [0..<W]" using assms(1,2) by simp_all
  have "y * W + x
      \<in> set (if y = 0 \<or> y = H - 1 \<or> x = 0 \<or> x = W - 1 then [y * W + x] else [])"
    using assms(3) by (simp only: if_True list.set insertI1)
  then have "y * W + x \<in> set (concat (map
      (\<lambda>x. if y = 0 \<or> y = H - 1 \<or> x = 0 \<or> x = W - 1 then [y * W + x] else []) [0..<W]))"
    using x by (rule in_concat_map [rotated])
  then show ?thesis
    unfolding border_verts_def using y by (rule in_concat_map [rotated])
qed

lemma base_verts_on_border:
  assumes "2 \<le> H" and "2 \<le> W"
  shows "set (base_verts H W) \<subseteq> set (border_verts H W)"
proof
  fix i assume "i \<in> set (base_verts H W)"
  then have "i \<in> (\<lambda>y. y * W) ` {0..<H - 1} \<or> i \<in> (\<lambda>x. (H - 1) * W + x) ` {1..<W - 1}
      \<or> i \<in> (\<lambda>y. y * W + (W - 1)) ` {0..<H - 2} \<or> i \<in> {1..<W - 2}"
    unfolding set_base_verts by blast
  then show "i \<in> set (border_verts H W)"
  proof (elim disjE imageE)
    fix y assume "i = y * W" and "y \<in> {0..<H - 1}"
    then show ?thesis using border_vertsI [of y H 0 W] assms by auto
  next
    fix x assume "i = (H - 1) * W + x" and "x \<in> {1..<W - 1}"
    then show ?thesis using border_vertsI [of "H - 1" H x W] assms by auto
  next
    fix y assume "i = y * W + (W - 1)" and "y \<in> {0..<H - 2}"
    then show ?thesis using border_vertsI [of y H "W - 1" W] assms by auto
  next
    assume "i \<in> {1..<W - 2}"
    then show ?thesis using border_vertsI [of 0 H i W] assms by auto
  qed
qed

lemma corner_not_in_base:
  assumes "2 \<le> H" and "1 \<le> W"
  shows "(H - 1) * W \<notin> set (base_verts H W)"
proof
  assume "(H - 1) * W \<in> set (base_verts H W)"
  then consider (a) y where "y < H - 1" "(H - 1) * W = y * W"
    | (b) x where "1 \<le> x" "(H - 1) * W = (H - 1) * W + x"
    | (c) y where "y < H - 2" "(H - 1) * W = y * W + (W - 1)"
    | (d) "(H - 1) * W < W - 2"
    unfolding set_base_verts by auto
  then show False
  proof cases
    case a
    then show False using assms(2) by simp
  next
    case b
    then show False by simp
  next
    case c
    have "y * W + (W - 1) < (H - 1) * W"
      using grid_index_less [of y "H - 1" "W - 1" W] c(1) assms(2) by simp
    then show False using c(2) by simp
  next
    case d
    have "1 \<le> H - 1" using assms(1) by simp
    then have "1 * W \<le> (H - 1) * W" by (rule mult_le_mono1)
    then have "W \<le> (H - 1) * W" by simp
    with d show False by linarith
  qed
qed

lemma corner_in_border:
  assumes "2 \<le> H" and "1 \<le> W"
  shows "(H - 1) * W \<in> set (border_verts H W)"
  using border_vertsI [of "H - 1" H 0 W] assms by simp

lemma base_verts_4_4: "base_verts 4 4 = [0, 4, 8, 13, 14, 7, 3, 1]"
  by code_simp

lemma border_verts_4_4: "border_verts 4 4 = [0, 1, 2, 3, 4, 7, 8, 11, 12, 13, 14, 15]"
  by code_simp

lemma plane_result:
  assumes "create_depthmap_bmesh fc a = Inr bm"
  shows "\<exists>w'. create_plane_mesh fc w a = (w', Inr (length (objects w))) \<and>
           length (objects w') = length (objects w) + 1 \<and>
           take (length (objects w)) (objects w') = objects w \<and>
           objects w' ! length (objects w)
             = \<lparr>obj_name = ''DepthMap_Plane'', obj_verts = bm_verts bm, obj_faces = bm_faces bm\<rparr> \<and>
           linked w' = linked w @ [length (objects w)] \<and>
           reports w' = reports w \<and> store w' = store w \<and>
           selected w' = selected w \<and> active w' = active w"
  using assms
  by (simp add: create_plane_mesh_def new_object_def link_def to_mesh_def)

lemma cube_result:
  assumes "shape a = [h, wd]" and "np_max a = Inr base_z"
    and "create_depthmap_bmesh fc (np_pad (dtype a) h wd (data a) base_z) = Inr bm"
  shows "\<exists>w'. create_cube_mesh fc w a = (w', Inr (length (objects w))) \<and>
           length (objects w') = length (objects w) + 1 \<and>
           take (length (objects w)) (objects w') = objects w \<and>
           obj_name (objects w' ! length (objects w)) = ''DepthMap_Cube'' \<and>
           obj_verts (objects w' ! length (objects w)) = bm_verts bm \<and>
           (case fc bm (base_verts (h + 2) (wd + 2)) of
              None \<Rightarrow> reports w' = reports w \<and>
                obj_faces (objects w' ! length (objects w))
                  = bm_faces bm @ [base_verts (h + 2) (wd + 2)]
            | Some m \<Rightarrow> reports w' = reports w @ [(ERROR, ''Failed to create base face: '' @ m)] \<and>
                obj_faces (objects w' ! length (objects w)) = bm_faces bm) \<and>
           linked w' = linked w @ [length (objects w)] \<and>
           store w' = store w \<and> selected w' = selected w \<and> active w' = active w"
proof -
  have len: "length (bm_verts bm) = (h + 2) * (wd + 2)"
    using create_depthmap_bmesh_length [OF _ assms(3)] by simp
  have get: "verts_get bm (base_verts (h + 2) (wd + 2)) = Inr (base_verts (h + 2) (wd + 2))"
    using base_verts_in_range [of h wd] by (simp add: verts_get_def len)
  show ?thesis
    using assms get
    by (simp add: create_cube_mesh_def new_object_def link_def to_mesh_def report_def
        faces_new_def Let_def split: option.splits)
qed

section \<open>Vertex counts\<close>

text \<open>
  Claim C6: for every 2D array of shape \<open>(h, wd)\<close> with \<open>h\<close> and \<open>wd\<close> at least 1, the plane
  builder returns an object with \<open>h * wd\<close> vertices and the cube builder one with
  \<open>(h + 2) * (wd + 2)\<close> vertices. The vertices of the cube are those of the grid built
  from the padded array: the base adds none, at most one face, and the indices of that
  face are vertices of the grid, all of them on its border.
\<close>

theorem vertex_counts:
  assumes "shape a = [h, wd]" and "1 \<le> h" and "1 \<le> wd" and "wf_array a"
  shows "(\<exists>w' obj. create_plane_mesh fc w a = (w', Inr obj) \<and> obj < length (objects w') \<and>
            length (obj_verts (objects w' ! obj)) = h * wd) \<and>
         (\<exists>w' obj base_z bm. create_cube_mesh fc w a = (w', Inr obj) \<and>
            obj < length (objects w') \<and>
            length (obj_verts (objects w' ! obj)) = (h + 2) * (wd + 2) \<and>
            np_max a = Inr base_z \<and>
            create_depthmap_bmesh fc (np_pad (dtype a) h wd (data a) base_z) = Inr bm \<and>
            obj_verts (objects w' ! obj) = bm_verts bm \<and>
            set (obj_faces (objects w' ! obj))
              \<subseteq> set (bm_faces bm) \<union> {base_verts (h + 2) (wd + 2)} \<and>
            list_all (\<lambda>i. i < length (bm_verts bm)) (base_verts (h + 2) (wd + 2)) \<and>
            set (base_verts (h + 2) (wd + 2)) \<subseteq> set (border_verts (h + 2) (wd + 2)))"
proof
  obtain bm where bm: "create_depthmap_bmesh fc a = Inr bm"
    using create_depthmap_bmesh_ok [OF assms(1)] by blast
  from plane_result [OF bm, of w] create_depthmap_bmesh_length [OF assms(1) bm]
  show "\<exists>w' obj. create_plane_mesh fc w a = (w', Inr obj) \<and> obj < length (objects w') \<and>
            length (obj_verts (objects w' ! obj)) = h * wd"
    by auto
next
  have "length (data a) = h * wd" using assms(1,4) by (simp add: wf_array_def)
  then have "data a \<noteq> []" using assms(2,3) by auto
  then obtain base_z where bz: "np_max a = Inr base_z" using np_max_nonempty by blast
  obtain bm where bm: "create_depthmap_bmesh fc (np_pad (dtype a) h wd (data a) base_z) = Inr bm"
    using create_depthmap_bmesh_ok [of "np_pad (dtype a) h wd (data a) base_z"] by auto
  have len: "length (bm_verts bm) = (h + 2) * (wd + 2)"
    using create_depthmap_bmesh_length [OF _ bm] by simp
  obtain w' where w': "create_cube_mesh fc w a = (w', Inr (length (objects w)))"
      "length (objects w') = length (objects w) + 1"
      "obj_verts (objects w' ! length (objects w)) = bm_verts bm"
      "case fc bm (base_verts (h + 2) (wd + 2)) of
              None \<Rightarrow> reports w' = reports w \<and>
                obj_faces (objects w' ! length (objects w))
                  = bm_faces bm @ [base_verts (h + 2) (wd + 2)]
            | Some m \<Rightarrow> reports w' = reports w @ [(ERROR, ''Failed to create base face: '' @ m)] \<and>
                obj_faces (objects w' ! length (objects w)) = bm_faces bm"
    using cube_result [OF assms(1) bz bm, of w] by blast
  have faces: "set (obj_faces (objects w' ! length (objects w)))
      \<subseteq> set (bm_faces bm) \<union> {base_verts (h + 2) (wd + 2)}"
    using w'(4) by (auto split: option.splits)
  have "list_all (\<lambda>i. i < length (bm_verts bm)) (base_verts (h + 2) (wd + 2))"
    using base_verts_in_range [of h wd] by (simp add: len)
  moreover have "set (base_verts (h + 2) (wd + 2)) \<subseteq> set (border_verts (h + 2) (wd + 2))"
    by (rule base_verts_on_border) simp_all
  ultimately show "\<exists>w' obj base_z bm. create_cube_mesh fc w a = (w', Inr obj) \<and>
            obj < length (objects w') \<and>
            length (obj_verts (objects w' ! obj)) = (h + 2) * (wd + 2) \<and>
            np_max a = Inr base_z \<and>
            create_depthmap_bmesh fc (np_pad (dtype a) h wd (data a) base_z) = Inr bm \<and>
            obj_verts (objects w' ! obj) = bm_verts bm \<and>
            set (obj_faces (objects w' ! obj))
              \<subseteq> set (bm_faces bm) \<union> {base_verts (h + 2) (wd + 2)} \<and>
            list_all (\<lambda>i. i < length (bm_verts bm)) (base_verts (h + 2) (wd + 2)) \<and>
            set (base_verts (h + 2) (wd + 2)) \<subseteq> set (border_verts (h + 2) (wd + 2))"
    using w' faces bz bm len
    by (intro exI [of _ w'] exI [of _ "length (objects w)"] exI [of _ base_z] exI [of _ bm]) simp
qed

theorem vertex_counts_witness:
  "(\<exists>w' obj. create_plane_mesh accept_all empty_world \<lparr>dtype = Float64, shape = [1, 1], data = [Fin 0]\<rparr> = (w', Inr obj) \<and>
      length (obj_verts (objects w' ! obj)) = 1) \<and>
   (\<exists>w' obj. create_cube_mesh accept_all empty_world \<lparr>dtype = Float64, shape = [1, 1], data = [Fin 0]\<rparr> = (w', Inr obj) \<and>
      length (obj_verts (objects w' ! obj)) = 9)"
proof -
  let ?a = "\<lparr>dtype = Float64, shape = [1, 1], data = [Fin 0]\<rparr>"
  have sh: "shape ?a = [1, 1]" by simp
  have one: "(1::nat) \<le> 1" by simp
  have wf: "wf_array ?a" by (simp add: wf_array_def)
  from vertex_counts [OF sh one one wf, of accept_all empty_world]
  show ?thesis by (simp add: numeral_eq_Suc) blast
qed

section \<open>A refused base face\<close>

text \<open>
  Claim C9: when Blender refuses the base face, \<^verbatim>\<open>create_cube_mesh\<close> reports an error that
  carries the cause and still returns the object: it is linked to the collection, and
  its mesh holds all vertices and all faces of the grid built from the padded array.
\<close>

theorem base_face_failure_reported:
  assumes "shape a = [h, wd]" and "np_max a = Inr base_z"
    and "create_depthmap_bmesh fc (np_pad (dtype a) h wd (data a) base_z) = Inr bm"
    and "fc bm (base_verts (h + 2) (wd + 2)) = Some m"
  shows "\<exists>w'. create_cube_mesh fc w a = (w', Inr (length (objects w))) \<and>
           reports w' = reports w @ [(ERROR, ''Failed to create base face: '' @ m)] \<and>
           length (objects w) < length (objects w') \<and>
           length (objects w) \<in> set (linked w') \<and>
           obj_verts (objects w' ! length (objects w)) = bm_verts bm \<and>
           obj_faces (objects w' ! length (objects w)) = bm_faces bm \<and>
           length (bm_verts bm) = (h + 2) * (wd + 2)"
proof -
  have len: "length (bm_verts bm) = (h + 2) * (wd + 2)"
    using create_depthmap_bmesh_length [OF _ assms(3)] by simp
  from cube_result [OF assms(1,2,3), of w] assms(4) len
  show ?thesis by auto
qed

theorem base_face_failure_reported_witness:
  "\<exists>w'. create_cube_mesh (refuse_face [0, 3, 7, 2]) empty_world \<lparr>dtype = Float64, shape = [1, 1], data = [Fin 0]\<rparr>
          = (w', Inr 0) \<and>
        reports w' = [(ERROR, ''Failed to create base face: refused'')] \<and>
        length (obj_verts (objects w' ! 0)) = 9"
proof -
  let ?a = "\<lparr>dtype = Float64, shape = [1, 1], data = [Fin 0]\<rparr>"
  let ?fc = "refuse_face [0, 3, 7, 2]"
  have sh: "shape ?a = [1, 1]" by simp
  have mx: "np_max ?a = Inr (Fin 0)" by (simp add: np_max_def)
  obtain bm where bm: "create_depthmap_bmesh ?fc (np_pad (dtype ?a) 1 1 (data ?a) (Fin 0)) = Inr bm"
    using create_depthmap_bmesh_ok [of "np_pad (dtype ?a) 1 1 (data ?a) (Fin 0)"] by auto
  have "base_verts (1 + 2) (1 + 2) = [0, 3, 7, 2]" by code_simp
  then have ref: "?fc bm (base_verts (1 + 2) (1 + 2)) = Some ''refused''"
    by (simp add: refuse_face_def)
  from base_face_failure_reported [OF sh mx bm ref, of empty_world]
  show ?thesis by (auto simp: empty_world_def)
qed

section \<open>The base polygon and the border\<close>

text \<open>
  Claim C2 says that the base polygon visits every vertex of the border of the padded
  grid. The four loops leave vertices out. For every padded grid the corner of the last
  row and the first column is on the border and is not in the polygon: the first loop
  stops one row early and the second starts at column 1. For the 4 by 4 grid that pads a
  2 by 2 array the polygon is \<open>[0, 4, 8, 13, 14, 7, 3, 1]\<close>, and the border vertices
  2, 11, 12 and 15 are missing from it.
\<close>

theorem base_verts_omits_corner:
  "(h + 1) * (w + 2) \<in> set (border_verts (h + 2) (w + 2)) \<and>
   (h + 1) * (w + 2) \<notin> set (base_verts (h + 2) (w + 2)) \<and>
   base_verts 4 4 = [0, 4, 8, 13, 14, 7, 3, 1] \<and>
   border_verts 4 4 = [0, 1, 2, 3, 4, 7, 8, 11, 12, 13, 14, 15]"
  using corner_in_border [of "h + 2" "w + 2"] corner_not_in_base [of "h + 2" "w + 2"]
  by (simp add: base_verts_4_4 border_verts_4_4)

text \<open>The polygon above is the last face of the cube built from a 2 by 2 array.\<close>

lemma cube_example:
  "last (obj_faces (objects (fst (create_cube_mesh accept_all empty_world
      \<lparr>dtype = Float64, shape = [2, 2], data = [Fin 0, Fin 1, Fin 1, Fin 0]\<rparr>)) ! 0)) = [0, 4, 8, 13, 14, 7, 3, 1]"
proof -
  let ?a = "\<lparr>dtype = Float64, shape = [2, 2], data = [Fin 0, Fin 1, Fin 1, Fin 0]\<rparr>"
  have sh: "shape ?a = [2, 2]" by simp
  have mx: "np_max ?a = Inr (Fin 1)" by (simp add: np_max_def fmaximum_def)
  obtain bm where bm: "create_depthmap_bmesh accept_all (np_pad (dtype ?a) 2 2 (data ?a) (Fin 1)) = Inr bm"
    using create_depthmap_bmesh_ok [of "np_pad (dtype ?a) 2 2 (data ?a) (Fin 1)"] by auto
  from cube_result [OF sh mx bm, of empty_world]
  show ?thesis by (auto simp: accept_all_def empty_world_def base_verts_4_4)
qed

section \<open>Which inputs execute rejects\<close>

lemma process_ok:
  assumes "r < length h" and "dtype (h ! r) = Float64" and "data (h ! r) \<noteq> []"
  shows "\<exists>h' a. process_depth_array self h r = (h', Inr a) \<and> a < length h' \<and>
           shape (h' ! a) = shape (h ! r) \<and> length (data (h' ! a)) = length (data (h ! r))"
proof -
  have ne: "data (map_array nan_to_num1 (h ! r)) \<noteq> []" using assms(3) by simp
  obtain mn where mn: "np_min (map_array nan_to_num1 (h ! r)) = Inr mn"
    using np_min_nonempty [OF ne] by blast
  obtain mx where mx: "np_max (map_array nan_to_num1 (h ! r)) = Inr mx"
    using np_max_nonempty [OF ne] by blast
  from process_result [OF assms(1,2) mn mx, of self] show ?thesis by auto
qed

lemma execute_not_2d:
  assumes "select_array d = Inr r" and "ndim (store w ! r) \<noteq> 2"
  shows "execute self fc w d = (report w ERROR ''Depth map must be 2D'', CANCELLED)"
  using assms by (simp add: execute_def)

lemma execute_process_raises:
  assumes "select_array d = Inr r" and "ndim (store w ! r) = 2"
    and "process_depth_array self (store w) r = (h', Inl e)"
  shows "execute self fc w d
           = (report (w\<lparr>store := h'\<rparr>) ERROR (''Failed to import: '' @ str_of_exn e), CANCELLED)"
  using assms by (simp add: execute_def failed_def)

lemma execute_empty:
  assumes "select_array d = Inr r" and "ndim (store w ! r) = 2" and "data (store w ! r) = []"
  shows "\<exists>h' e. execute self fc w d
           = (report (w\<lparr>store := h'\<rparr>) ERROR (''Failed to import: '' @ str_of_exn e), CANCELLED)"
proof -
  obtain h' e where "process_depth_array self (store w) r = (h', Inl e)"
    using process_raises [OF assms(3)] by blast
  from execute_process_raises [OF assms(1,2) this] show ?thesis by blast
qed

lemma execute_after_process:
  assumes "select_array d = Inr r" and "ndim (store w ! r) = 2"
    and "process_depth_array self (store w) r = (h', Inr a)"
    and "shape (h' ! a) = [h, wd]" and "data (h' ! a) \<noteq> []"
  shows "\<exists>w'. execute self fc w d = (w', FINISHED) \<and>
           length (objects w') = length (objects w) + 1 \<and>
           active w' = Some (length (objects w))"
proof -
  let ?w1 = "w\<lparr>store := h'\<rparr>"
  show ?thesis
  proof (cases "use_cube self")
    case True
    obtain base_z where bz: "np_max (h' ! a) = Inr base_z"
      using np_max_nonempty [OF assms(5)] by blast
    obtain bm where bm: "create_depthmap_bmesh fc
        (np_pad (dtype (h' ! a)) h wd (data (h' ! a)) base_z) = Inr bm"
      using create_depthmap_bmesh_ok [of "np_pad (dtype (h' ! a)) h wd (data (h' ! a)) base_z"]
      by auto
    obtain w2 where w2: "create_cube_mesh fc ?w1 (h' ! a) = (w2, Inr (length (objects w)))"
      "length (objects w2) = length (objects w) + 1"
      using cube_result [OF assms(4) bz bm, of ?w1] by auto
    show ?thesis
      using assms(1,2,3) True w2 by (simp add: execute_def report_def)
  next
    case False
    obtain bm where bm: "create_depthmap_bmesh fc (h' ! a) = Inr bm"
      using create_depthmap_bmesh_ok [OF assms(4)] by blast
    obtain w2 where w2: "create_plane_mesh fc ?w1 (h' ! a) = (w2, Inr (length (objects w)))"
      "length (objects w2) = length (objects w) + 1"
      using plane_result [OF bm, of ?w1] by auto
    show ?thesis
      using assms(1,2,3) False w2 by (simp add: execute_def report_def)
  qed
qed

text \<open>
  For an array of floats, \<^verbatim>\<open>execute\<close> ends with \<^verbatim>\<open>CANCELLED\<close> exactly when the array is not
  2D or its height or its width is less than 1. When it is cancelled, one error is
  reported and no object is created; otherwise it ends with \<^verbatim>\<open>FINISHED\<close> and one object
  more. An array that is not 2D is refused by the check of \<^verbatim>\<open>ndim\<close>; a 2D array without
  elements by the ValueError of \<^verbatim>\<open>np.min\<close>, which the handler of \<^verbatim>\<open>execute\<close> reports.
\<close>

lemma execute_float_rejects_iff:
  assumes "select_array d = Inr r" and "r < length (store w)" and "wf_array (store w ! r)"
    and "dtype (store w ! r) = Float64"
  shows "(snd (execute self fc w d) = CANCELLED \<longleftrightarrow>
            ndim (store w ! r) \<noteq> 2 \<or> shape (store w ! r) ! 0 < 1 \<or> shape (store w ! r) ! 1 < 1) \<and>
         (snd (execute self fc w d) = CANCELLED \<longrightarrow>
            objects (fst (execute self fc w d)) = objects w \<and>
            (\<exists>m. reports (fst (execute self fc w d)) = reports w @ [(ERROR, m)])) \<and>
         (snd (execute self fc w d) \<noteq> CANCELLED \<longrightarrow>
            snd (execute self fc w d) = FINISHED \<and>
            length (objects (fst (execute self fc w d))) = length (objects w) + 1)"
proof (cases "ndim (store w ! r) = 2")
  case False
  then show ?thesis using execute_not_2d [OF assms(1), of w self fc] by (simp add: report_def)
next
  case True
  then obtain h wd where sh: "shape (store w ! r) = [h, wd]"
    by (cases "shape (store w ! r)" rule: list.exhaust [case_product list.exhaust])
       (auto simp: ndim_def length_Suc_conv)
  have len: "length (data (store w ! r)) = h * wd"
    using assms(3) sh by (simp add: wf_array_def)
  show ?thesis
  proof (cases "h < 1 \<or> wd < 1")
    case True
    then have "data (store w ! r) = []" using len by auto
    from execute_empty [OF assms(1) \<open>ndim (store w ! r) = 2\<close> this, of self fc]
    show ?thesis using True sh by (auto simp: report_def)
  next
    case False
    then have ne: "data (store w ! r) \<noteq> []" using len by auto
    obtain h' a where p: "process_depth_array self (store w) r = (h', Inr a)"
      and sh': "shape (h' ! a) = [h, wd]"
      and len': "length (data (h' ! a)) = length (data (store w ! r))"
      using process_ok [OF assms(2,4) ne, of self] sh by auto
    have "data (h' ! a) \<noteq> []" using len' ne by auto
    from execute_after_process [OF assms(1) \<open>ndim (store w ! r) = 2\<close> p sh' this, of fc]
    show ?thesis using False sh \<open>ndim (store w ! r) = 2\<close> by auto
  qed
qed

text \<open>
  An array of integers with a range is built as well: the division turns it into an
  array of floats before the multiplication in place.
\<close>

lemma execute_int_range_example:
  "snd (execute \<lparr>use_cube = False, depth_scale = 1\<rparr> accept_all
          (empty_world\<lparr>store := [\<lparr>dtype = Int64, shape = [2, 2],
                                   data = [Fin 0, Fin 1, Fin 1, Fin 0]\<rparr>]\<rparr>) (NpyArray 0))
     = FINISHED"
proof -
  let ?self = "\<lparr>use_cube = False, depth_scale = 1\<rparr>"
  let ?a = "\<lparr>dtype = Int64, shape = [2, 2], data = [Fin 0, Fin 1, Fin 1, Fin 0]\<rparr>"
  let ?w = "empty_world\<lparr>store := [?a]\<rparr>"
  have sel: "select_array (NpyArray 0) = Inr 0" by (simp add: select_array_def)
  have nd: "ndim (store ?w ! 0) = 2" by (simp add: ndim_def)
  have one: "fresult 1 = Fin 1" by (rule fresult_fin) (use float_max_ge in simp)
  have p: "process_depth_array ?self (store ?w) 0
      = ([?a, ?a, \<lparr>dtype = Int64, shape = [2, 2], data = [Fin 0, Fin 1, Fin 1, Fin 0]\<rparr>,
          \<lparr>dtype = Float64, shape = [2, 2], data = [Fin 0, Fin 1, Fin 1, Fin 0]\<rparr>], Inr 3)"
    using one
    by (simp add: process_depth_array_def nan_to_num_def alloc_def arr_sub_def arr_div_def
        arr_imul_def sanitized_def np_sub_def isub_def wrap64_def np_min_def np_max_def
        fminimum_def fmaximum_def flt_def map_array_def)
  from execute_after_process [OF sel nd p, of 2 2 accept_all]
  show ?thesis by auto
qed

text \<open>
  Claim C4: \<^verbatim>\<open>execute\<close> rejects its input exactly when the array is not 2D or its height
  or its width is less than 1, and builds every 2D array with at least one row and one
  column. The code misses the second part for an array of integers whose elements are
  all equal. The rescaling is skipped, so the array keeps its integer type, and the
  multiplication in place by the scale raises; the handler of \<^verbatim>\<open>execute\<close> reports the
  exception, no object is created and the result is \<^verbatim>\<open>CANCELLED\<close>, although the array is
  2D and not empty.
\<close>

theorem execute_flat_int_cancelled:
  assumes "select_array d = Inr r" and "r < length (store w)"
    and "dtype (store w ! r) = Int64" and "shape (store w ! r) = [h, wd]"
    and "data (store w ! r) = replicate (h * wd) c" and "1 \<le> h" and "1 \<le> wd" and "c \<noteq> NaN"
  shows "snd (execute self fc w d) = CANCELLED \<and>
         objects (fst (execute self fc w d)) = objects w \<and>
         reports (fst (execute self fc w d))
           = reports w @ [(ERROR, ''Failed to import: '' @ str_of_exn cast_error)]"
proof -
  have n: "0 < h * wd" using assms(6,7) by simp
  have nd: "ndim (store w ! r) = 2" using assms(4) by (simp add: ndim_def)
  from process_flat_int_raises [OF assms(2,3,5) n assms(8), of self]
    execute_process_raises [OF assms(1) nd, of self _ cast_error fc]
  show ?thesis by (simp add: report_def)
qed

theorem execute_flat_int_cancelled_witness:
  "snd (execute \<lparr>use_cube = False, depth_scale = 1\<rparr> accept_all
          (empty_world\<lparr>store := [\<lparr>dtype = Int64, shape = [2, 2],
                                   data = [Fin 5, Fin 5, Fin 5, Fin 5]\<rparr>]\<rparr>) (NpyArray 0))
     = CANCELLED \<and>
   objects (fst (execute \<lparr>use_cube = False, depth_scale = 1\<rparr> accept_all
          (empty_world\<lparr>store := [\<lparr>dtype = Int64, shape = [2, 2],
                                   data = [Fin 5, Fin 5, Fin 5, Fin 5]\<rparr>]\<rparr>) (NpyArray 0)))
     = []"
proof -
  let ?a = "\<lparr>dtype = Int64, shape = [2, 2], data = [Fin 5, Fin 5, Fin 5, Fin 5]\<rparr>"
  let ?w = "empty_world\<lparr>store := [?a]\<rparr>"
  have 1: "select_array (NpyArray 0) = Inr 0" by (simp add: select_array_def)
  have 2: "0 < length (store ?w)" by simp
  have 3: "dtype (store ?w ! 0) = Int64" by simp
  have 4: "shape (store ?w ! 0) = [2, 2]" by simp
  have 5: "data (store ?w ! 0) = replicate (2 * 2) (Fin 5)" by (simp add: numeral_eq_Suc)
  have 6: "(1::nat) \<le> 2" by simp
  have 7: "Fin 5 \<noteq> NaN" by simp
  from execute_flat_int_cancelled [OF 1 2 3 4 5 6 6 7, of "\<lparr>use_cube = False, depth_scale = 1\<rparr>" accept_all]
  show ?thesis by (simp add: empty_world_def)
qed

end
